theory Spec2Isabelle
  imports Main "HOL-Library.Word"
begin

section \<open>Data model (types.go, client.go)\<close>

text \<open>
  \<^verbatim>\<open>type APIError struct { StatusCode int; Message string; Retryable bool }\<close>
\<close>

record APIError =
  StatusCode :: int
  Message :: string
  Retryable :: bool

text \<open>
  The values of Go's \<^verbatim>\<open>error\<close> interface that this package produces: a pointer to
  an \<^verbatim>\<open>APIError\<close>, the error of a finished context (\<^verbatim>\<open>ctx.Err()\<close>), and the value of
  \<^verbatim>\<open>fmt.Errorf\<close>. \<open>Errorf msg cause\<close> holds the formatted text up to the \<^verbatim>\<open>%w\<close> verb
  and the operand of \<^verbatim>\<open>%w\<close>; the operand is \<open>None\<close> when the format has no \<^verbatim>\<open>%w\<close> or
  when a nil error is passed to it.
\<close>

datatype ctx_error = Canceled | DeadlineExceeded

datatype go_error =
    APIErr APIError
  | CtxErr ctx_error
  | Errorf string "go_error option"

text \<open>
  \<^verbatim>\<open>type Client struct { baseURL string; httpClient *http.Client; token string;
                       maxRetries int; retryDelay time.Duration }\<close>
  Go's \<^verbatim>\<open>int\<close> is taken at 64 bits, read as two's complement by \<open>sint\<close>. A
  \<^verbatim>\<open>time.Duration\<close> is a number of nanoseconds. The \<^verbatim>\<open>httpClient\<close> is the network:
  what it answers is supplied per attempt by a \<open>world\<close> (below).
\<close>

record Client =
  baseURL :: string
  token :: string
  maxRetries :: "64 word"
  retryDelay :: int

definition Second :: int where
  "Second = 1000000000"

text \<open>Decimal rendering of an integer, as the \<^verbatim>\<open>%d\<close> verb of \<^verbatim>\<open>fmt\<close> prints it.\<close>

definition digit :: "nat \<Rightarrow> char" where
  "digit n = char_of (48 + n)"

fun utoa :: "nat \<Rightarrow> string" where
  "utoa n = (if n < 10 then [digit n] else utoa (n div 10) @ [digit (n mod 10)])"

declare utoa.simps [simp del]

definition Itoa :: "int \<Rightarrow> string" where
  "Itoa i = (if i < 0 then CHR ''-'' # utoa (nat (- i)) else utoa (nat i))"

definition NewClient :: "string \<Rightarrow> int \<Rightarrow> Client" where
  "NewClient host port =
     \<lparr> baseURL = ''https://'' @ host @ '':'' @ Itoa port,
       token = '''',
       maxRetries = 3,
       retryDelay = 2 * Second \<rparr>"

definition SetRetryPolicy :: "Client \<Rightarrow> 64 word \<Rightarrow> int \<Rightarrow> Client" where
  "SetRetryPolicy c maxRetries' retryDelay' =
     c\<lparr> maxRetries := maxRetries', retryDelay := retryDelay' \<rparr>"

section \<open>The environment of one attempt\<close>

text \<open>
  The request handed to \<^verbatim>\<open>httpClient.Do\<close>: method, URL, the serialised body if there is
  one, and the header fields set on it.
\<close>

record request =
  req_method :: string
  req_url :: string
  req_body :: "string option"
  req_header :: "string \<rightharpoonup> string"

text \<open>
  A response as the code reads it: the status code and what \<^verbatim>\<open>io.ReadAll(resp.Body)\<close>
  returns, \<open>Inl\<close> the text of a read error or \<open>Inr\<close> the bytes of the body.
\<close>

record response =
  resp_StatusCode :: int
  resp_Body :: "string + string"

text \<open>
  The library functions the code calls, as parameters: \<^verbatim>\<open>json.Marshal\<close> at the type of
  the body (\<open>Inl\<close> the error text), \<^verbatim>\<open>json.Unmarshal\<close> at the type of the result target,
  \<^verbatim>\<open>http.NewRequestWithContext\<close> (the error text on a method or URL it rejects) and
  \<^verbatim>\<open>http.StatusText\<close>.
\<close>

record ('b, 'r) stdlib =
  json_Marshal :: "'b \<Rightarrow> string + string"
  json_Unmarshal :: "string \<Rightarrow> string + 'r"
  http_NewRequest :: "string \<Rightarrow> string \<Rightarrow> string option"
  http_StatusText :: "int \<Rightarrow> string"

text \<open>
  What the outside does during one iteration of the retry loop:
  \<^item> \<open>ctx_Done\<close>: the outcome of the \<^verbatim>\<open>select\<close> before the attempt, \<open>Some e\<close> when the
    \<^verbatim>\<open>ctx.Done()\<close> case is taken (and \<^verbatim>\<open>ctx.Err()\<close> is then \<open>e\<close>), \<open>None\<close> when the timer
    case is taken;
  \<^item> \<open>http_Do\<close>: what \<^verbatim>\<open>httpClient.Do\<close> answers to the request, \<open>Inl\<close> the text of a
    transport error;
  \<^item> \<open>ctx_Err\<close>: the value of \<^verbatim>\<open>ctx.Err()\<close> read after the attempt, \<open>None\<close> for nil.
\<close>

record world =
  ctx_Done :: "ctx_error option"
  http_Do :: "request \<Rightarrow> string + response"
  ctx_Err :: "ctx_error option"

section \<open>Transport Executor: doRequestOnce (client.go)\<close>

definition Header_Set :: "request \<Rightarrow> string \<Rightarrow> string \<Rightarrow> request" where
  "Header_Set req k v = req\<lparr> req_header := (req_header req)(k \<mapsto> v) \<rparr>"

text \<open>
  \<^verbatim>\<open>doRequestOnce\<close> is embedded in three parts, in the order of its body.

  \<open>prepareRequest\<close> is the part before the request is sent: the body is serialised when
  there is one, the request is built for \<^verbatim>\<open>c.baseURL+path\<close>, and the header fields
  \<^verbatim>\<open>Content-Type\<close> and \<^verbatim>\<open>Authorization\<close> are set. It returns the error of that part or
  the request.
\<close>

definition prepareRequest ::
  "('b, 'r) stdlib \<Rightarrow> Client \<Rightarrow> string \<Rightarrow> string \<Rightarrow> 'b option \<Rightarrow> bool
    \<Rightarrow> go_error + request" where
  "prepareRequest lib c method path body requireAuth =
     (case (case body of
              None \<Rightarrow> Inr None
            | Some b \<Rightarrow> (case json_Marshal lib b of
                          Inl err \<Rightarrow> Inl err
                        | Inr jsonData \<Rightarrow> Inr (Some jsonData))) of
        Inl err \<Rightarrow>
          Inl (APIErr \<lparr> StatusCode = 0,
                        Message = ''failed to marshal request: '' @ err,
                        Retryable = False \<rparr>)
      | Inr reqBody \<Rightarrow>
          (case http_NewRequest lib method (baseURL c @ path) of
             Some err \<Rightarrow>
               Inl (APIErr \<lparr> StatusCode = 0,
                             Message = ''failed to create request: '' @ err,
                             Retryable = False \<rparr>)
           | None \<Rightarrow>
               (let req0 = \<lparr> req_method = method, req_url = baseURL c @ path,
                             req_body = reqBody, req_header = Map.empty \<rparr>;
                    req1 = (case body of
                              None \<Rightarrow> req0
                            | Some b \<Rightarrow> Header_Set req0 ''Content-Type'' ''application/json'')
                in Inr (if requireAuth \<and> token c \<noteq> ''''
                        then Header_Set req1 ''Authorization'' (''Bearer '' @ token c)
                        else req1))))"

text \<open>
  \<open>handleResponse\<close> is the part after \<^verbatim>\<open>httpClient.Do\<close> has answered: the body is read,
  a status outside 200..299 is an error, and the body is decoded into the result target.
  It returns the error (\<open>Inl\<close>) or success (\<open>Inr\<close>, with the decoded value, \<open>None\<close> when
  nothing was decoded). \<open>result\<close> is \<^verbatim>\<open>result != nil\<close>.
\<close>

definition handleResponse ::
  "('b, 'r) stdlib \<Rightarrow> bool \<Rightarrow> response \<Rightarrow> go_error + 'r option" where
  "handleResponse lib result resp =
     (case resp_Body resp of
        Inl err \<Rightarrow>
          Inl (APIErr \<lparr> StatusCode = resp_StatusCode resp,
                        Message = ''failed to read response: '' @ err,
                        Retryable = True \<rparr>)
      | Inr respBody \<Rightarrow>
          if resp_StatusCode resp < 200 \<or> resp_StatusCode resp \<ge> 300 then
            (let retryable = (resp_StatusCode resp \<ge> 500 \<or> resp_StatusCode resp = 429);
                 msg = (if respBody = ''''
                        then ''HTTP '' @ Itoa (resp_StatusCode resp) @ '': ''
                             @ http_StatusText lib (resp_StatusCode resp)
                        else respBody)
             in Inl (APIErr \<lparr> StatusCode = resp_StatusCode resp,
                               Message = msg,
                               Retryable = retryable \<rparr>))
          else if result \<and> length respBody > 0 then
            (case json_Unmarshal lib respBody of
               Inl err \<Rightarrow>
                 Inl (APIErr \<lparr> StatusCode = resp_StatusCode resp,
                               Message = ''failed to unmarshal response: '' @ err,
                               Retryable = False \<rparr>)
             | Inr v \<Rightarrow> Inr (Some v))
          else Inr None)"

text \<open>
  The whole attempt. Its result is the returned error or success, together with the
  request that was handed to \<^verbatim>\<open>httpClient.Do\<close>, \<open>None\<close> when the attempt ended before
  sending.
\<close>

definition doRequestOnce ::
  "('b, 'r) stdlib \<Rightarrow> Client \<Rightarrow> world \<Rightarrow> string \<Rightarrow> string \<Rightarrow> 'b option \<Rightarrow> bool \<Rightarrow> bool
    \<Rightarrow> (go_error + 'r option) \<times> request option" where
  "doRequestOnce lib c w method path body result requireAuth =
     (case prepareRequest lib c method path body requireAuth of
        Inl err \<Rightarrow> (Inl err, None)
      | Inr req \<Rightarrow>
          (case http_Do w req of
             Inl err \<Rightarrow>
               (Inl (APIErr \<lparr> StatusCode = 0,
                              Message = ''request failed: '' @ err,
                              Retryable = True \<rparr>), Some req)
           | Inr resp \<Rightarrow> (handleResponse lib result resp, Some req)))"

text \<open>
  \<^verbatim>\<open>func isNonRetryableError(err error) bool {
      if apiErr, ok := err.(*APIError); ok { return !apiErr.Retryable }
      return false }\<close>
\<close>

fun isNonRetryableError :: "go_error \<Rightarrow> bool" where
  "isNonRetryableError (APIErr apiErr) = (\<not> Retryable apiErr)"
| "isNonRetryableError _ = False"

section \<open>Retry Coordinator: doRequest (client.go)\<close>

text \<open>
  What the coordinator does, in order: \<open>Delay d\<close> is a wait on \<^verbatim>\<open>time.After(d)\<close> that ran
  to its end, \<open>Attempt sent\<close> one call of \<^verbatim>\<open>doRequestOnce\<close> with the request it sent.
\<close>

datatype event = Delay int | Attempt "request option"

text \<open>
  The error returned after the loop:
  \<^verbatim>\<open>fmt.Errorf("request failed after %d attempts: %w", c.maxRetries+1, lastErr)\<close>.
  The addition is Go's, on 64 bits.
\<close>

definition exhausted :: "Client \<Rightarrow> go_error option \<Rightarrow> go_error" where
  "exhausted c lastErr =
     Errorf (''request failed after '' @ Itoa (sint (maxRetries c + 1)) @ '' attempts: '') lastErr"

text \<open>
  The loop \<^verbatim>\<open>for attempt := 0; attempt <= c.maxRetries; attempt++\<close>. Each iteration
  takes the next \<open>world\<close> of a finite script of what the outside does; \<open>None\<close> is the
  answer when the script ends before the loop does. The arguments \<open>attempt\<close>, \<open>lastErr\<close>
  are the loop's variables, \<open>tr\<close> the events so far.
\<close>

fun doRequest_loop ::
  "('b, 'r) stdlib \<Rightarrow> Client \<Rightarrow> string \<Rightarrow> string \<Rightarrow> 'b option \<Rightarrow> bool \<Rightarrow> bool
    \<Rightarrow> world list \<Rightarrow> 64 word \<Rightarrow> go_error option \<Rightarrow> event list
    \<Rightarrow> ((go_error + 'r option) \<times> event list) option" where
  "doRequest_loop lib c method path body result requireAuth [] attempt lastErr tr =
     (if sint attempt \<le> sint (maxRetries c) then None
      else Some (Inl (exhausted c lastErr), tr))"
| "doRequest_loop lib c method path body result requireAuth (w # ws) attempt lastErr tr =
     (if sint attempt \<le> sint (maxRetries c) then
        (case (if sint attempt > 0 then ctx_Done w else None) of
           Some cerr \<Rightarrow> Some (Inl (CtxErr cerr), tr)
         | None \<Rightarrow>
             (let tr1 = (if sint attempt > 0 then tr @ [Delay (retryDelay c)] else tr);
                  (r, sent) = doRequestOnce lib c w method path body result requireAuth;
                  tr2 = tr1 @ [Attempt sent]
              in case r of
                   Inr v \<Rightarrow> Some (Inr v, tr2)
                 | Inl err \<Rightarrow>
                     if isNonRetryableError err then Some (Inl err, tr2)
                     else (case ctx_Err w of
                             Some cerr \<Rightarrow> Some (Inl (CtxErr cerr), tr2)
                           | None \<Rightarrow>
                               doRequest_loop lib c method path body result requireAuth
                                 ws (attempt + 1) (Some err) tr2)))
      else Some (Inl (exhausted c lastErr), tr))"

declare doRequest_loop.simps [simp del]

definition doRequest ::
  "('b, 'r) stdlib \<Rightarrow> Client \<Rightarrow> world list \<Rightarrow> string \<Rightarrow> string \<Rightarrow> 'b option \<Rightarrow> bool \<Rightarrow> bool
    \<Rightarrow> ((go_error + 'r option) \<times> event list) option" where
  "doRequest lib c ws method path body result requireAuth =
     doRequest_loop lib c method path body result requireAuth ws 0 None []"

section \<open>Login (client.go)\<close>

record LoginRequest =
  Username :: string
  Password :: string
  DurationMs :: int

record AuthDto =
  AccessToken :: string
  TokenType :: string
  ExpiresIn :: int

text \<open>The zero value of \<^verbatim>\<open>var auth AuthDto\<close>, left as it is when no body is decoded.\<close>

definition zero_AuthDto :: AuthDto where
  "zero_AuthDto = \<lparr> AccessToken = [], TokenType = [], ExpiresIn = 0 \<rparr>"

text \<open>
  \<^verbatim>\<open>Login\<close> returns the error or the decoded \<^verbatim>\<open>AuthDto\<close>, the client after the call
  (\<^verbatim>\<open>c.token = auth.AccessToken\<close> on success) and the events of its request.
\<close>

definition Login ::
  "(LoginRequest, AuthDto) stdlib \<Rightarrow> Client \<Rightarrow> world list \<Rightarrow> string \<Rightarrow> string \<Rightarrow> int
    \<Rightarrow> ((go_error + AuthDto) \<times> Client \<times> event list) option" where
  "Login lib c ws username password durationMs =
     (let req = \<lparr> Username = username, Password = password, DurationMs = durationMs \<rparr>
      in case doRequest lib c ws ''POST'' ''/api/auth/login'' (Some req) True False of
           None \<Rightarrow> None
         | Some (Inl err, tr) \<Rightarrow> Some (Inl (Errorf ''login failed: '' (Some err)), c, tr)
         | Some (Inr v, tr) \<Rightarrow>
             (let auth = (case v of None \<Rightarrow> zero_AuthDto | Some a \<Rightarrow> a)
              in Some (Inr auth, c\<lparr> token := AccessToken auth \<rparr>, tr)))"

section \<open>Completion Poller: GetTask, WaitForTaskCompletion (tasks.go)\<close>

text \<open>\<^verbatim>\<open>type TaskStatus string\<close> and its constants (types.go).\<close>

type_synonym TaskStatus = string

definition TaskStatusNotFound :: TaskStatus where
  "TaskStatusNotFound = ''NOT_FOUND''"

definition TaskStatusInProgress :: TaskStatus where
  "TaskStatusInProgress = ''IN_PROGRESS''"

definition TaskStatusCompleted :: TaskStatus where
  "TaskStatusCompleted = ''COMPLETED''"

definition TaskStatusFailed :: TaskStatus where
  "TaskStatusFailed = ''FAILED''"

definition TaskStatusOutputReceived :: TaskStatus where
  "TaskStatusOutputReceived = ''OUTPUT_RECEIVED''"

text \<open>
  \<^verbatim>\<open>TaskDetailDto\<close> with the fields of the embedded \<^verbatim>\<open>TaskSummaryDto\<close>. Times are
  nanoseconds; the entries of \<^verbatim>\<open>Result\<close>, \<^verbatim>\<open>Error\<close> and \<^verbatim>\<open>Tactics\<close> are kept as text,
  the poller never looks inside them.
\<close>

record TaskDetailDto =
  TaskID :: string
  BID :: string
  JID :: int
  TaskCommand :: string
  User :: string
  Created :: int
  Updated :: "int option"
  TaskStatus :: TaskStatus
  Result :: "string list"
  Error :: "string list"
  Tactics :: "string list"

definition zero_TaskDetailDto :: TaskDetailDto where
  "zero_TaskDetailDto =
     \<lparr> TaskID = [], BID = [], JID = 0, TaskCommand = [], User = [], Created = 0,
       Updated = None, TaskStatus = [], Result = [], Error = [], Tactics = [] \<rparr>"

definition GetTask ::
  "('b, TaskDetailDto) stdlib \<Rightarrow> Client \<Rightarrow> world list \<Rightarrow> string
    \<Rightarrow> (go_error + TaskDetailDto) option" where
  "GetTask lib c ws taskID =
     (case doRequest lib c ws ''GET'' (''/api/v1/tasks/'' @ taskID) None True True of
        None \<Rightarrow> None
      | Some (Inl err, tr) \<Rightarrow> Some (Inl (Errorf ''failed to get task: '' (Some err)))
      | Some (Inr v, tr) \<Rightarrow>
          Some (Inr (case v of None \<Rightarrow> zero_TaskDetailDto | Some task \<Rightarrow> task)))"

text \<open>The period of \<^verbatim>\<open>time.NewTicker(2 * time.Second)\<close>.\<close>

definition tickInterval :: int where
  "tickInterval = 2 * Second"

text \<open>
  What the outside does during one iteration of the poller's loop:
  \<^item> \<open>tick_Done\<close>: the outcome of the \<^verbatim>\<open>select\<close>, \<open>Some e\<close> when the \<^verbatim>\<open>ctx.Done()\<close> case
    is taken (and \<^verbatim>\<open>ctx.Err()\<close> is then \<open>e\<close>), \<open>None\<close> when a tick is received;
  \<^item> \<open>tick_Now\<close>: the value of \<^verbatim>\<open>time.Now()\<close> read after the tick is received;
  \<^item> \<open>tick_net\<close>: the worlds of the retry loop of this iteration's \<^verbatim>\<open>GetTask\<close>.
  The ticker offers a tick every \<open>tickInterval\<close> from the start on; a tick is received
  when the loop is back at the \<^verbatim>\<open>select\<close>, so \<open>tick_Now\<close> is the time of the tick or
  later.
\<close>

record tick =
  tick_Done :: "ctx_error option"
  tick_Now :: int
  tick_net :: "world list"

text \<open>\<^verbatim>\<open>fmt.Errorf("timeout waiting for task completion")\<close>\<close>

definition timeoutError :: go_error where
  "timeoutError = Errorf ''timeout waiting for task completion'' None"

text \<open>
  The loop \<^verbatim>\<open>for { select { ... } }\<close> of \<^verbatim>\<open>WaitForTaskCompletion\<close>, one \<open>tick\<close> of a
  finite script per iteration; \<open>None\<close> is the answer when the script ends while the loop
  is still polling. \<open>seen\<close> collects the clock readings of the ticks received. The
  debugging \<^verbatim>\<open>fmt.Printf\<close> writes to standard output and is left out.
\<close>

fun WaitForTaskCompletion_loop ::
  "('b, TaskDetailDto) stdlib \<Rightarrow> Client \<Rightarrow> string \<Rightarrow> int \<Rightarrow> tick list \<Rightarrow> int list
    \<Rightarrow> ((go_error + TaskDetailDto) \<times> int list) option" where
  "WaitForTaskCompletion_loop lib c taskID deadline [] seen = None"
| "WaitForTaskCompletion_loop lib c taskID deadline (t # ts) seen =
     (case tick_Done t of
        Some cerr \<Rightarrow> Some (Inl (CtxErr cerr), seen)
      | None \<Rightarrow>
          if tick_Now t > deadline then Some (Inl timeoutError, seen @ [tick_Now t])
          else (case GetTask lib c (tick_net t) taskID of
                  None \<Rightarrow> None
                | Some (Inl err) \<Rightarrow> Some (Inl err, seen @ [tick_Now t])
                | Some (Inr task) \<Rightarrow>
                    if TaskStatus task = TaskStatusCompleted
                       \<or> TaskStatus task = TaskStatusOutputReceived
                       \<or> TaskStatus task = TaskStatusFailed
                    then Some (Inr task, seen @ [tick_Now t])
                    else WaitForTaskCompletion_loop lib c taskID deadline ts
                           (seen @ [tick_Now t])))"

declare WaitForTaskCompletion_loop.simps [simp del]

text \<open>
  \<open>start\<close> is the value of \<^verbatim>\<open>time.Now()\<close> at entry:
  \<^verbatim>\<open>deadline := time.Now().Add(timeout)\<close>.
\<close>

definition WaitForTaskCompletion ::
  "('b, TaskDetailDto) stdlib \<Rightarrow> Client \<Rightarrow> int \<Rightarrow> tick list \<Rightarrow> string \<Rightarrow> int
    \<Rightarrow> ((go_error + TaskDetailDto) \<times> int list) option" where
  "WaitForTaskCompletion lib c start ticks taskID timeout =
     WaitForTaskCompletion_loop lib c taskID (start + timeout) ticks []"

section \<open>Notions used to state the properties\<close>

text \<open>
  An attempt in world \<open>w\<close> is a retryable failure when \<^verbatim>\<open>doRequestOnce\<close> returns an error
  that \<^verbatim>\<open>isNonRetryableError\<close> does not stop on.
\<close>

definition retryableFailure ::
  "('b, 'r) stdlib \<Rightarrow> Client \<Rightarrow> string \<Rightarrow> string \<Rightarrow> 'b option \<Rightarrow> bool \<Rightarrow> bool \<Rightarrow> world
    \<Rightarrow> bool" where
  "retryableFailure lib c method path body result requireAuth w =
     (case fst (doRequestOnce lib c w method path body result requireAuth) of
        Inl err \<Rightarrow> \<not> isNonRetryableError err
      | Inr v \<Rightarrow> False)"

text \<open>The error an attempt in world \<open>w\<close> returns, \<open>None\<close> when it succeeds.\<close>

definition errorOf ::
  "('b, 'r) stdlib \<Rightarrow> Client \<Rightarrow> string \<Rightarrow> string \<Rightarrow> 'b option \<Rightarrow> bool \<Rightarrow> bool \<Rightarrow> world
    \<Rightarrow> go_error option" where
  "errorOf lib c method path body result requireAuth w =
     (case fst (doRequestOnce lib c w method path body result requireAuth) of
        Inl err \<Rightarrow> Some err
      | Inr v \<Rightarrow> None)"

text \<open>The request an attempt in world \<open>w\<close> sends.\<close>

definition sentBy ::
  "('b, 'r) stdlib \<Rightarrow> Client \<Rightarrow> string \<Rightarrow> string \<Rightarrow> 'b option \<Rightarrow> bool \<Rightarrow> bool \<Rightarrow> world
    \<Rightarrow> request option" where
  "sentBy lib c method path body result requireAuth w =
     snd (doRequestOnce lib c w method path body result requireAuth)"

text \<open>Cancellation does not fire in world \<open>w\<close>, at neither place where the loop looks.\<close>

definition noCancel :: "world \<Rightarrow> bool" where
  "noCancel w = (ctx_Done w = None \<and> ctx_Err w = None)"

text \<open>
  The events of a run of attempts, one per sent request of the list, with a delay of \<open>d\<close>
  before every attempt but the first of the whole run (\<open>first\<close> says that the list
  starts with it).
\<close>

fun retryEvents :: "int \<Rightarrow> bool \<Rightarrow> request option list \<Rightarrow> event list" where
  "retryEvents d first [] = []"
| "retryEvents d first (s # ss) =
     (if first then [] else [Delay d]) @ Attempt s # retryEvents d False ss"

fun isAttempt :: "event \<Rightarrow> bool" where
  "isAttempt (Attempt s) = True"
| "isAttempt (Delay d) = False"

definition attempts :: "event list \<Rightarrow> nat" where
  "attempts tr = length (filter isAttempt tr)"

text \<open>The statuses on which the poller returns the snapshot.\<close>

definition terminalStatus :: "TaskStatus \<Rightarrow> bool" where
  "terminalStatus s =
     (s = TaskStatusCompleted \<or> s = TaskStatusOutputReceived \<or> s = TaskStatusFailed)"

text \<open>
  A tick of the poller that is received without cancellation at clock reading \<open>now\<close> and
  whose fetch returns the snapshot \<open>task\<close>.
\<close>

definition fetches ::
  "('b, TaskDetailDto) stdlib \<Rightarrow> Client \<Rightarrow> string \<Rightarrow> tick \<Rightarrow> TaskDetailDto \<Rightarrow> bool" where
  "fetches lib c taskID t task =
     (tick_Done t = None \<and> GetTask lib c (tick_net t) taskID = Some (Inr task))"

text \<open>
  The ticks of the list are received on time up to \<open>late\<close>: counted from \<open>k\<close>, the
  \<open>k\<close>-th tick is due at \<open>start + k * tickInterval\<close>, and it is received then or up to
  \<open>late\<close> later.
\<close>

fun onTime :: "int \<Rightarrow> int \<Rightarrow> nat \<Rightarrow> tick list \<Rightarrow> bool" where
  "onTime start late k [] = True"
| "onTime start late k (t # ts) =
     (start + int k * tickInterval \<le> tick_Now t
      \<and> tick_Now t \<le> start + int k * tickInterval + late
      \<and> onTime start late (Suc k) ts)"

section \<open>Concrete inputs\<close>

text \<open>
  A library whose serialiser and decoder are the identity on text, that accepts every
  method and URL, and that knows the reason phrases of 404 and 503.
\<close>

definition lib0 :: "(string, string) stdlib" where
  "lib0 = \<lparr> json_Marshal = (\<lambda>b. Inr b),
            json_Unmarshal = (\<lambda>s. Inr s),
            http_NewRequest = (\<lambda>method url. None),
            http_StatusText = (\<lambda>code. if code = 404 then ''Not Found''
                                      else if code = 503 then ''Service Unavailable''
                                      else []) \<rparr>"

text \<open>The same with a decoder that reads the body as the \<^verbatim>\<open>access_token\<close>.\<close>

definition libLogin :: "(LoginRequest, AuthDto) stdlib" where
  "libLogin = \<lparr> json_Marshal = (\<lambda>b. Inr (Username b @ '':'' @ Password b)),
                json_Unmarshal = (\<lambda>s. Inr \<lparr> AccessToken = s, TokenType = ''bearer'',
                                              ExpiresIn = 3600 \<rparr>),
                http_NewRequest = (\<lambda>method url. None),
                http_StatusText = (\<lambda>code. []) \<rparr>"

text \<open>The same with a decoder that reads the body as the \<^verbatim>\<open>taskStatus\<close>.\<close>

definition libTask :: "(string, TaskDetailDto) stdlib" where
  "libTask = \<lparr> json_Marshal = (\<lambda>b. Inr b),
               json_Unmarshal = (\<lambda>s. Inr (zero_TaskDetailDto\<lparr> TaskID := ''t1'',
                                                              TaskStatus := s \<rparr>)),
               http_NewRequest = (\<lambda>method url. None),
               http_StatusText = (\<lambda>code. []) \<rparr>"

definition c0 :: Client where
  "c0 = \<lparr> baseURL = ''https://ts:50050'', token = ''tok'', maxRetries = 3,
          retryDelay = 2 * Second \<rparr>"

text \<open>The same client after \<^verbatim>\<open>SetRetryPolicy(1, 0)\<close>.\<close>

definition c1 :: Client where
  "c1 = SetRetryPolicy c0 1 0"

text \<open>The request that \<open>c0\<close> sends for an authenticated \<^verbatim>\<open>GET\<close> of \<^verbatim>\<open>/x\<close> without body.\<close>

definition getX :: request where
  "getX = \<lparr> req_method = ''GET'', req_url = ''https://ts:50050/x'', req_body = None,
            req_header = [''Authorization'' \<mapsto> ''Bearer tok''] \<rparr>"

text \<open>A world where the server answers with the status \<open>code\<close> and the body \<open>b\<close>.\<close>

definition answer :: "int \<Rightarrow> string \<Rightarrow> world" where
  "answer code b =
     \<lparr> ctx_Done = None,
       http_Do = (\<lambda>req. Inr \<lparr> resp_StatusCode = code, resp_Body = Inr b \<rparr>),
       ctx_Err = None \<rparr>"

text \<open>A world where the server answers 404 and the body cannot be read to its end.\<close>

definition brokenBody404 :: world where
  "brokenBody404 =
     \<lparr> ctx_Done = None,
       http_Do = (\<lambda>req. Inr \<lparr> resp_StatusCode = 404,
                                resp_Body = Inl ''unexpected EOF'' \<rparr>),
       ctx_Err = None \<rparr>"

text \<open>
  A world where the server answers 404 with a body and where \<^verbatim>\<open>ctx.Err()\<close> is
  \<^verbatim>\<open>context.Canceled\<close> after the attempt.
\<close>

definition cancelled404 :: world where
  "cancelled404 =
     \<lparr> ctx_Done = None,
       http_Do = (\<lambda>req. Inr \<lparr> resp_StatusCode = 404,
                                resp_Body = Inr ''no such task'' \<rparr>),
       ctx_Err = Some Canceled \<rparr>"

text \<open>A world where the \<^verbatim>\<open>select\<close> before the attempt takes the \<^verbatim>\<open>ctx.Done()\<close> case.\<close>

definition waitCancelled :: world where
  "waitCancelled =
     \<lparr> ctx_Done = Some Canceled,
       http_Do = (\<lambda>req. Inr \<lparr> resp_StatusCode = 200, resp_Body = Inr ''ok'' \<rparr>),
       ctx_Err = Some Canceled \<rparr>"

text \<open>
  A world where the server answers 503 and where \<^verbatim>\<open>ctx.Err()\<close> is
  \<^verbatim>\<open>context.DeadlineExceeded\<close> after the attempt.
\<close>

definition busyThenDeadline :: world where
  "busyThenDeadline =
     \<lparr> ctx_Done = None,
       http_Do = (\<lambda>req. Inr \<lparr> resp_StatusCode = 503, resp_Body = Inr ''busy'' \<rparr>),
       ctx_Err = Some DeadlineExceeded \<rparr>"

text \<open>The request that the \<^verbatim>\<open>Login\<close> of \<open>c0\<close> sends for \<^verbatim>\<open>operator\<close> and \<^verbatim>\<open>secret\<close>.\<close>

definition loginReq :: request where
  "loginReq = \<lparr> req_method = ''POST'', req_url = ''https://ts:50050/api/auth/login'',
                req_body = Some ''operator:secret'',
                req_header = [''Content-Type'' \<mapsto> ''application/json''] \<rparr>"

text \<open>
  A world where the server answers 200 to a request that carries the bearer token
  \<^verbatim>\<open>tok\<close> and 401 to every other request.
\<close>

definition bearerOnly :: world where
  "bearerOnly =
     \<lparr> ctx_Done = None,
       http_Do = (\<lambda>req. if req_header req ''Authorization'' = Some ''Bearer tok''
                         then Inr \<lparr> resp_StatusCode = 200, resp_Body = Inr ''ok'' \<rparr>
                         else Inr \<lparr> resp_StatusCode = 401,
                                    resp_Body = Inr ''unauthorized'' \<rparr>),
       ctx_Err = None \<rparr>"

text \<open>A tick received at clock reading \<open>now\<close> whose fetch is answered 200 with \<open>status\<close>.\<close>

definition tickAt :: "int \<Rightarrow> string \<Rightarrow> tick" where
  "tickAt now status =
     \<lparr> tick_Done = None, tick_Now = now, tick_net = [answer 200 status] \<rparr>"

section \<open>Lemmas\<close>

subsection \<open>Arithmetic of the attempt counter\<close>

lemma sint_succ:
  fixes a :: "64 word"
  assumes "sint a < 2 ^ 63 - 1"
  shows "sint (a + 1) = sint a + 1"
proof -
  have "- (2 ^ 63) \<le> sint a" using sint_ge [of a] by simp
  with assms have "- (2 ^ 63) \<le> sint a + 1" "sint a + 1 < 2 ^ 63" by linarith+
  then have "signed_take_bit 63 (sint a + 1) = sint a + 1"
    by (simp add: signed_take_bit_int_eq_self)
  then show ?thesis by (simp add: sint_word_ariths)
qed

lemma sint_below_max:
  fixes a m :: "64 word"
  assumes "sint a < sint m"
  shows "sint a < 2 ^ 63 - 1"
proof -
  have "sint m < 2 ^ 63" using sint_lt [of m] by simp
  with assms show ?thesis by linarith
qed

subsection \<open>The retry loop\<close>


lemma doRequest_loop_exit:
  "\<not> sint attempt \<le> sint (maxRetries c) \<Longrightarrow>
   doRequest_loop lib c method path body result requireAuth ws attempt lastErr tr =
     Some (Inl (exhausted c lastErr), tr)"
  by (cases ws) (simp_all add: doRequest_loop.simps)

lemma doRequest_loop_retry:
  assumes "sint attempt \<le> sint (maxRetries c)"
    and "retryableFailure lib c method path body result requireAuth w"
    and "noCancel w"
  shows "doRequest_loop lib c method path body result requireAuth (w # ws) attempt lastErr tr =
     doRequest_loop lib c method path body result requireAuth ws (attempt + 1)
       (errorOf lib c method path body result requireAuth w)
       (tr @ retryEvents (retryDelay c) (\<not> sint attempt > 0)
               [sentBy lib c method path body result requireAuth w])"
proof -
  obtain r s where rs: "doRequestOnce lib c w method path body result requireAuth = (r, s)"
    by (cases "doRequestOnce lib c w method path body result requireAuth")
  from assms(2) rs obtain err where r: "r = Inl err" and nr: "\<not> isNonRetryableError err"
    by (auto simp: retryableFailure_def split: sum.splits)
  from assms(3) have nc: "ctx_Done w = None" "ctx_Err w = None"
    by (simp_all add: noCancel_def)
  show ?thesis
    using assms(1) rs r nr nc by (simp add: doRequest_loop.simps errorOf_def sentBy_def)
qed

lemma doRequest_loop_prefix:
  assumes "\<forall>w \<in> set pre. retryableFailure lib c method path body result requireAuth w \<and> noCancel w"
    and "0 \<le> sint attempt"
    and "sint attempt + int (length pre) \<le> sint (maxRetries c) + 1"
    and "pre \<noteq> []"
  shows "doRequest_loop lib c method path body result requireAuth (pre @ ws) attempt lastErr tr =
     doRequest_loop lib c method path body result requireAuth ws (attempt + of_nat (length pre))
       (errorOf lib c method path body result requireAuth (last pre))
       (tr @ retryEvents (retryDelay c) (sint attempt = 0)
               (map (sentBy lib c method path body result requireAuth) pre))"
  using assms
proof (induction pre arbitrary: attempt lastErr tr)
  case Nil
  then show ?case by simp
next
  case (Cons w pre)
  from Cons.prems have le: "sint attempt \<le> sint (maxRetries c)" by simp
  from Cons.prems have w: "retryableFailure lib c method path body result requireAuth w" "noCancel w"
    by simp_all
  have first: "(\<not> sint attempt > 0) = (sint attempt = 0)"
    using Cons.prems(2) by linarith
  note step = doRequest_loop_retry [OF le w, of "pre @ ws" lastErr tr, unfolded first]
  show ?case
  proof (cases "pre = []")
    case True
    then show ?thesis using step by simp
  next
    case False
    then have "length pre \<ge> 1" by (cases pre) simp_all
    with Cons.prems(3) have lt: "sint attempt < sint (maxRetries c)" by simp
    have suc: "sint (attempt + 1) = sint attempt + 1"
      by (rule sint_succ [OF sint_below_max [OF lt]])
    have pos: "0 \<le> sint (attempt + 1)" "sint (attempt + 1) \<noteq> 0"
      using suc Cons.prems(2) by linarith+
    have bound: "sint (attempt + 1) + int (length pre) \<le> sint (maxRetries c) + 1"
      using suc Cons.prems(3) by simp
    have all: "\<forall>w \<in> set pre. retryableFailure lib c method path body result requireAuth w \<and> noCancel w"
      using Cons.prems(1) by simp
    note ih = Cons.IH [OF all pos(1) bound False]
    have w1: "attempt + 1 + of_nat (length pre) = attempt + of_nat (length (w # pre))"
      by simp
    have "doRequest_loop lib c method path body result requireAuth ((w # pre) @ ws) attempt lastErr tr =
          doRequest_loop lib c method path body result requireAuth (pre @ ws) (attempt + 1)
            (errorOf lib c method path body result requireAuth w)
            (tr @ retryEvents (retryDelay c) (sint attempt = 0)
               [sentBy lib c method path body result requireAuth w])"
      using step by simp
    also have "\<dots> = doRequest_loop lib c method path body result requireAuth ws
            (attempt + 1 + of_nat (length pre))
            (errorOf lib c method path body result requireAuth (last pre))
            ((tr @ retryEvents (retryDelay c) (sint attempt = 0)
               [sentBy lib c method path body result requireAuth w])
             @ retryEvents (retryDelay c) (sint (attempt + 1) = 0)
               (map (sentBy lib c method path body result requireAuth) pre))"
      by (rule ih)
    finally show ?thesis
      using False pos(2) unfolding w1 by simp
  qed
qed

lemma sint_add_of_nat:
  fixes a m :: "64 word"
  shows "sint a + int n \<le> sint m \<Longrightarrow> sint (a + of_nat n) = sint a + int n"
proof (induction n)
  case 0
  then show ?case by simp
next
  case (Suc n)
  then have ih: "sint (a + of_nat n) = sint a + int n" by simp
  with Suc.prems have "sint (a + of_nat n) < sint m" by simp
  then have "sint (a + of_nat n + 1) = sint (a + of_nat n) + 1"
    by (intro sint_succ sint_below_max)
  moreover have "a + of_nat (Suc n) = a + of_nat n + 1" by simp
  ultimately have "sint (a + of_nat (Suc n)) = sint (a + of_nat n) + 1" by (simp only:)
  with ih show ?case by simp
qed

lemma attempts_retryEvents: "attempts (retryEvents d first ss) = length ss"
  by (induction ss arbitrary: first) (simp_all add: attempts_def)

lemma retryEvents_snoc:
  "retryEvents d first (ss @ [s]) =
     retryEvents d first ss @ (if first \<and> ss = [] then [] else [Delay d]) @ [Attempt s]"
  by (induction ss arbitrary: first) simp_all

subsection \<open>Evaluation of the concrete inputs\<close>

lemma Itoa_0: "Itoa 0 = ''0''"
  by code_simp

lemma Itoa_2: "Itoa 2 = ''2''"
  by code_simp

lemma Itoa_404: "Itoa 404 = ''404''"
  by code_simp

lemma StatusText_lib0_404: "http_StatusText lib0 404 = ''Not Found''"
  by (simp add: lib0_def)

lemma prepareRequest_getX:
  assumes "baseURL c = ''https://ts:50050''" and "token c = ''tok''"
  shows "prepareRequest lib0 c ''GET'' ''/x'' None True = Inr getX"
  using assms by (simp add: prepareRequest_def lib0_def getX_def Header_Set_def)

lemma doRequestOnce_answer:
  assumes "baseURL c = ''https://ts:50050''" and "token c = ''tok''"
  shows "doRequestOnce lib0 c (answer code b) ''GET'' ''/x'' None True True =
           (handleResponse lib0 True \<lparr> resp_StatusCode = code, resp_Body = Inr b \<rparr>, Some getX)"
  using assms by (simp add: doRequestOnce_def prepareRequest_getX answer_def)

lemma handleResponse_lib0_ok:
  "handleResponse lib0 True \<lparr> resp_StatusCode = 200, resp_Body = Inr ''ok'' \<rparr> = Inr (Some ''ok'')"
  by (simp add: handleResponse_def lib0_def)

lemma handleResponse_lib0_busy:
  "handleResponse lib0 True \<lparr> resp_StatusCode = 503, resp_Body = Inr ''busy'' \<rparr> =
     Inl (APIErr \<lparr> StatusCode = 503, Message = ''busy'', Retryable = True \<rparr>)"
  by (simp add: handleResponse_def)

lemma handleResponse_lib0_missing:
  "handleResponse lib0 True \<lparr> resp_StatusCode = 404, resp_Body = Inr ''no such task'' \<rparr> =
     Inl (APIErr \<lparr> StatusCode = 404, Message = ''no such task'', Retryable = False \<rparr>)"
  by (simp add: handleResponse_def)

lemmas c0_fields = c0_def c1_def SetRetryPolicy_def

lemma noCancel_answer: "noCancel (answer code b)"
  by (simp add: noCancel_def answer_def)

lemma busy_retryable:
  assumes "baseURL c = ''https://ts:50050''" and "token c = ''tok''"
  shows "retryableFailure lib0 c ''GET'' ''/x'' None True True (answer 503 ''busy'')"
    and "errorOf lib0 c ''GET'' ''/x'' None True True (answer 503 ''busy'') =
           Some (APIErr \<lparr> StatusCode = 503, Message = ''busy'', Retryable = True \<rparr>)"
    and "sentBy lib0 c ''GET'' ''/x'' None True True (answer code b) = Some getX"
  using assms
  by (simp_all add: retryableFailure_def errorOf_def sentBy_def
        doRequestOnce_answer handleResponse_lib0_busy)

section \<open>Transport Executor\<close>

lemma doRequestOnce_sent:
  "snd (doRequestOnce lib c w method path body result requireAuth) = Some req
   \<longleftrightarrow> prepareRequest lib c method path body requireAuth = Inr req"
  by (simp add: doRequestOnce_def split: sum.splits)

text \<open>
  C1, as amended. For every attempt that sends a request \<open>req\<close>, is answered by a response
  whose body is read to its end (\<open>respBody\<close>) and whose status is outside 200..299:
  \<^verbatim>\<open>doRequestOnce\<close> returns an \<^verbatim>\<open>APIError\<close> that carries that status, whose \<^verbatim>\<open>Retryable\<close>
  is true exactly when the status is at least 500 or equal to 429, and whose \<^verbatim>\<open>Message\<close>
  is the text of the body, or \<^verbatim>\<open>HTTP <code>: <reason>\<close> when the body is empty.
\<close>

theorem doRequestOnce_failure_status:
  assumes "snd (doRequestOnce lib c w method path body result requireAuth) = Some req"
    and "http_Do w req = Inr resp"
    and "resp_Body resp = Inr respBody"
    and "resp_StatusCode resp < 200 \<or> resp_StatusCode resp \<ge> 300"
  shows "fst (doRequestOnce lib c w method path body result requireAuth) =
           Inl (APIErr \<lparr> StatusCode = resp_StatusCode resp,
                          Message = (if respBody = ''''
                                     then ''HTTP '' @ Itoa (resp_StatusCode resp) @ '': ''
                                          @ http_StatusText lib (resp_StatusCode resp)
                                     else respBody),
                          Retryable = (resp_StatusCode resp \<ge> 500
                                       \<or> resp_StatusCode resp = 429) \<rparr>)"
proof -
  from assms(1) have "prepareRequest lib c method path body requireAuth = Inr req"
    by (simp add: doRequestOnce_sent)
  then have "fst (doRequestOnce lib c w method path body result requireAuth) =
               handleResponse lib result resp"
    using assms(2) by (simp add: doRequestOnce_def)
  also have "\<dots> = Inl (APIErr \<lparr> StatusCode = resp_StatusCode resp,
                          Message = (if respBody = ''''
                                     then ''HTTP '' @ Itoa (resp_StatusCode resp) @ '': ''
                                          @ http_StatusText lib (resp_StatusCode resp)
                                     else respBody),
                          Retryable = (resp_StatusCode resp \<ge> 500
                                       \<or> resp_StatusCode resp = 429) \<rparr>)"
    using assms(3,4) by (simp add: handleResponse_def Let_def)
  finally show ?thesis .
qed

text \<open>The theorem at a 404 with an empty body.\<close>

theorem doRequestOnce_failure_status_witness:
  "fst (doRequestOnce lib0 c0 (answer 404 []) ''GET'' ''/x'' None True True) =
     Inl (APIErr \<lparr> StatusCode = 404, Message = ''HTTP 404: Not Found'', Retryable = False \<rparr>)"
  using doRequestOnce_failure_status [of lib0 c0 "answer 404 []" "''GET''" "''/x''" None True True
      getX "\<lparr> resp_StatusCode = 404, resp_Body = Inr [] \<rparr>" "[]"]
  by (simp add: doRequestOnce_sent prepareRequest_getX c0_def answer_def Itoa_404
        StatusText_lib0_404)

text \<open>
  C1 as stated fails where the body of the response cannot be read: for the status 404,
  which is below 500 and not 429, the returned \<^verbatim>\<open>APIError\<close> has \<^verbatim>\<open>Retryable\<close> true, and its
  \<^verbatim>\<open>Message\<close> is neither the body nor the synthesized text.
\<close>

theorem doRequestOnce_read_failure_counterexample:
  "fst (doRequestOnce lib0 c0 brokenBody404 ''GET'' ''/x'' None True True) =
     Inl (APIErr \<lparr> StatusCode = 404, Message = ''failed to read response: unexpected EOF'',
                    Retryable = True \<rparr>)"
  by (simp add: doRequestOnce_def prepareRequest_getX c0_def brokenBody404_def
        handleResponse_def)

section \<open>Retry Coordinator\<close>

text \<open>
  C2. Let \<open>N\<close> be at most \<^verbatim>\<open>maxRetries\<close>. If each of the first \<open>N\<close> attempts is a retryable
  failure, the next attempt succeeds with \<open>v\<close>, and cancellation does not fire, then
  \<^verbatim>\<open>doRequest\<close> returns that success; its events are the \<open>N + 1\<close> attempts, with a delay of
  \<^verbatim>\<open>retryDelay\<close> before every attempt but the first.
\<close>

theorem doRequest_retries_then_success:
  assumes "int N \<le> sint (maxRetries c)"
    and "length fails = N"
    and "\<forall>w \<in> set fails. retryableFailure lib c method path body result requireAuth w
                           \<and> noCancel w"
    and "fst (doRequestOnce lib c ok method path body result requireAuth) = Inr v"
    and "ctx_Done ok = None"
  shows "doRequest lib c (fails @ ok # rest) method path body result requireAuth =
           Some (Inr v, retryEvents (retryDelay c) True
                          (map (sentBy lib c method path body result requireAuth)
                             (fails @ [ok])))
         \<and> attempts (retryEvents (retryDelay c) True
                        (map (sentBy lib c method path body result requireAuth)
                           (fails @ [ok]))) = N + 1"
proof -
  let ?sent = "sentBy lib c method path body result requireAuth"
  obtain r s where rs: "doRequestOnce lib c ok method path body result requireAuth = (r, s)"
    by (cases "doRequestOnce lib c ok method path body result requireAuth")
  with assms(4) have r: "r = Inr v" by simp
  have s: "s = ?sent ok" using rs by (simp add: sentBy_def)
  have last_step:
    "doRequest_loop lib c method path body result requireAuth (ok # rest) a e tr =
       Some (Inr v, tr @ (if sint a > 0 then [Delay (retryDelay c)] else [])
                       @ [Attempt (?sent ok)])"
    if "sint a \<le> sint (maxRetries c)" for a e tr
    using that rs r s assms(5) by (simp add: doRequest_loop.simps)
  have run: "doRequest lib c (fails @ ok # rest) method path body result requireAuth =
           Some (Inr v, retryEvents (retryDelay c) True (map ?sent (fails @ [ok])))"
  proof (cases "fails = []")
    case True
    have "sint (0 :: 64 word) \<le> sint (maxRetries c)" using assms(1) by simp
    from last_step [OF this] True show ?thesis by (simp add: doRequest_def)
  next
    case False
    have b: "sint (0 :: 64 word) + int (length fails) \<le> sint (maxRetries c) + 1"
      using assms(1,2) by simp
    have "sint (0 + of_nat (length fails) :: 64 word) = sint (0 :: 64 word) + int (length fails)"
      by (rule sint_add_of_nat [of 0 "length fails" "maxRetries c"]) (use assms(1,2) in simp)
    then have sn: "sint (of_nat N :: 64 word) = int N" using assms(2) by simp
    have pos: "sint (of_nat N :: 64 word) > 0"
      using sn False assms(2) by (cases fails) simp_all
    have le: "sint (of_nat N :: 64 word) \<le> sint (maxRetries c)" using sn assms(1) by simp
    have "doRequest lib c (fails @ ok # rest) method path body result requireAuth =
          doRequest_loop lib c method path body result requireAuth (ok # rest) (of_nat N)
            (errorOf lib c method path body result requireAuth (last fails))
            (retryEvents (retryDelay c) True (map ?sent fails))"
      unfolding doRequest_def
      using doRequest_loop_prefix [OF assms(3) _ b False, of "ok # rest" None "[]"] assms(2)
      by simp
    also have "\<dots> = Some (Inr v, retryEvents (retryDelay c) True (map ?sent fails)
                       @ [Delay (retryDelay c)] @ [Attempt (?sent ok)])"
      using last_step [OF le] pos by simp
    finally show ?thesis using False by (simp add: retryEvents_snoc)
  qed
  show ?thesis using run assms(2) by (simp add: attempts_retryEvents)
qed

text \<open>The theorem at two answers 503 followed by an answer 200, with the default policy.\<close>

theorem doRequest_retries_then_success_witness:
  "doRequest lib0 c0 [answer 503 ''busy'', answer 503 ''busy'', answer 200 ''ok'']
     ''GET'' ''/x'' None True True =
     Some (Inr (Some ''ok''),
           [Attempt (Some getX), Delay (2 * Second), Attempt (Some getX),
            Delay (2 * Second), Attempt (Some getX)])
   \<and> attempts [Attempt (Some getX), Delay (2 * Second), Attempt (Some getX),
               Delay (2 * Second), Attempt (Some getX)] = 2 + 1"
  using doRequest_retries_then_success [of 2 c0 "[answer 503 ''busy'', answer 503 ''busy'']"
      lib0 "''GET''" "''/x''" None True True "answer 200 ''ok''" "Some ''ok''" "[]"]
  by (simp add: busy_retryable noCancel_answer doRequestOnce_answer handleResponse_lib0_ok
        c0_def)
     (simp add: answer_def)

text \<open>
  C6. Let \<^verbatim>\<open>maxRetries\<close> be at least 0 and \<^verbatim>\<open>maxRetries + 1\<close> not overflow. If each of the
  \<^verbatim>\<open>maxRetries + 1\<close> attempts is a retryable failure and cancellation does not fire, then
  \<^verbatim>\<open>doRequest\<close> makes exactly these attempts and returns the error
  \<^verbatim>\<open>request failed after <maxRetries + 1> attempts: %w\<close> that wraps the error of the last
  attempt.
\<close>

theorem doRequest_exhausted:
  assumes "0 \<le> sint (maxRetries c)"
    and "sint (maxRetries c) + 1 < 2 ^ 63"
    and "int (length fails) = sint (maxRetries c) + 1"
    and "\<forall>w \<in> set fails. retryableFailure lib c method path body result requireAuth w
                           \<and> noCancel w"
  shows "\<exists>err. fst (doRequestOnce lib c (last fails) method path body result requireAuth)
                 = Inl err
           \<and> doRequest lib c (fails @ rest) method path body result requireAuth =
               Some (Inl (Errorf (''request failed after ''
                                  @ Itoa (sint (maxRetries c) + 1) @ '' attempts: '')
                           (Some err)),
                     retryEvents (retryDelay c) True
                       (map (sentBy lib c method path body result requireAuth) fails))
           \<and> attempts (retryEvents (retryDelay c) True
                       (map (sentBy lib c method path body result requireAuth) fails))
               = nat (sint (maxRetries c) + 1)"
proof -
  let ?sent = "sentBy lib c method path body result requireAuth"
  from assms(1,3) have ne: "fails \<noteq> []" by auto
  then have "last fails \<in> set fails" by simp
  with assms(4) have "retryableFailure lib c method path body result requireAuth (last fails)"
    by simp
  then obtain err where
    err: "fst (doRequestOnce lib c (last fails) method path body result requireAuth) = Inl err"
    by (auto simp: retryableFailure_def split: sum.splits)
  then have eo: "errorOf lib c method path body result requireAuth (last fails) = Some err"
    by (simp add: errorOf_def)
  have b: "sint (0 :: 64 word) + int (length fails) \<le> sint (maxRetries c) + 1"
    using assms(3) by simp
  have m1: "sint (maxRetries c + 1) = sint (maxRetries c) + 1"
    by (rule sint_succ) (use assms(2) in simp)
  have "(of_nat (length fails) :: 64 word) = of_int (int (length fails))" by simp
  also have "\<dots> = of_int (sint (maxRetries c) + 1)" by (simp only: assms(3))
  also have "\<dots> = maxRetries c + 1" by simp
  finally have w: "(of_nat (length fails) :: 64 word) = maxRetries c + 1" .
  have ex: "\<not> sint (maxRetries c + 1) \<le> sint (maxRetries c)" using m1 by simp
  have "doRequest lib c (fails @ rest) method path body result requireAuth =
          doRequest_loop lib c method path body result requireAuth rest (maxRetries c + 1)
            (Some err) (retryEvents (retryDelay c) True (map ?sent fails))"
    unfolding doRequest_def
    using doRequest_loop_prefix [OF assms(4) _ b ne, of rest None "[]"] eo w
    by simp
  also have "\<dots> = Some (Inl (exhausted c (Some err)),
                         retryEvents (retryDelay c) True (map ?sent fails))"
    by (rule doRequest_loop_exit [OF ex])
  finally have "doRequest lib c (fails @ rest) method path body result requireAuth =
      Some (Inl (Errorf (''request failed after '' @ Itoa (sint (maxRetries c) + 1)
                         @ '' attempts: '') (Some err)),
            retryEvents (retryDelay c) True (map ?sent fails))"
    by (simp add: exhausted_def m1)
  moreover have "attempts (retryEvents (retryDelay c) True (map ?sent fails))
                   = nat (sint (maxRetries c) + 1)"
    using assms(3) by (simp add: attempts_retryEvents)
  ultimately show ?thesis using err by blast
qed

text \<open>The theorem at one retry and two answers 503.\<close>

theorem doRequest_exhausted_witness:
  "\<exists>err. fst (doRequestOnce lib0 c1 (answer 503 ''busy'') ''GET'' ''/x'' None True True)
            = Inl err
      \<and> doRequest lib0 c1 [answer 503 ''busy'', answer 503 ''busy''] ''GET'' ''/x'' None True True =
          Some (Inl (Errorf ''request failed after 2 attempts: '' (Some err)),
                [Attempt (Some getX), Delay 0, Attempt (Some getX)])
      \<and> attempts [Attempt (Some getX), Delay 0, Attempt (Some getX)] = 2"
  using doRequest_exhausted [of c1 "[answer 503 ''busy'', answer 503 ''busy'']"
      lib0 "''GET''" "''/x''" None True True "[]"]
  by (simp add: busy_retryable noCancel_answer c0_fields Itoa_2)

text \<open>
  C7. If \<^verbatim>\<open>maxRetries\<close> is at least 0 and the first attempt returns an error on which
  \<^verbatim>\<open>isNonRetryableError\<close> holds, then \<^verbatim>\<open>doRequest\<close> returns that error itself, and its only
  event is that one attempt: no delay, no second attempt.
\<close>

theorem doRequest_first_non_retryable:
  assumes "0 \<le> sint (maxRetries c)"
    and "fst (doRequestOnce lib c w method path body result requireAuth) = Inl err"
    and "isNonRetryableError err"
  shows "doRequest lib c (w # rest) method path body result requireAuth =
           Some (Inl err, [Attempt (sentBy lib c method path body result requireAuth w)])"
proof -
  obtain r s where rs: "doRequestOnce lib c w method path body result requireAuth = (r, s)"
    by (cases "doRequestOnce lib c w method path body result requireAuth")
  with assms(2) have "r = Inl err" by simp
  then show ?thesis
    using assms(1,3) rs by (simp add: doRequest_def doRequest_loop.simps sentBy_def)
qed

text \<open>The theorem at an answer 404, with answers 200 ready for further attempts.\<close>

theorem doRequest_first_non_retryable_witness:
  "doRequest lib0 c0 [answer 404 ''no such task'', answer 200 ''ok'', answer 200 ''ok'']
     ''GET'' ''/x'' None True True =
     Some (Inl (APIErr \<lparr> StatusCode = 404, Message = ''no such task'', Retryable = False \<rparr>),
           [Attempt (Some getX)])"
  using doRequest_first_non_retryable [of c0 lib0 "answer 404 ''no such task''"
      "''GET''" "''/x''" None True True
      "APIErr \<lparr> StatusCode = 404, Message = ''no such task'', Retryable = False \<rparr>"
      "[answer 200 ''ok'', answer 200 ''ok'']"]
  by (simp add: busy_retryable doRequestOnce_answer handleResponse_lib0_missing c0_def)

text \<open>
  C10. After \<^verbatim>\<open>SetRetryPolicy\<close> with a negative \<^verbatim>\<open>maxRetries\<close>, \<^verbatim>\<open>doRequest\<close> makes no attempt
  (it has no event) and returns the error \<^verbatim>\<open>request failed after <maxRetries + 1>
  attempts: %w\<close> whose wrapped error is nil, whatever the outside would have answered.
\<close>

theorem doRequest_negative_maxRetries:
  assumes "sint n < 0"
  shows "doRequest lib (SetRetryPolicy c n d) ws method path body result requireAuth =
           Some (Inl (Errorf (''request failed after '' @ Itoa (sint (n + 1)) @ '' attempts: '')
                       None), [])"
proof -
  have "\<not> sint (0 :: 64 word) \<le> sint (maxRetries (SetRetryPolicy c n d))"
    using assms by (simp add: SetRetryPolicy_def)
  then show ?thesis
    unfolding doRequest_def
    by (simp add: doRequest_loop_exit exhausted_def SetRetryPolicy_def)
qed

text \<open>The theorem at \<^verbatim>\<open>maxRetries = -1\<close>, with an answer 200 ready.\<close>

theorem doRequest_negative_maxRetries_witness:
  "doRequest lib0 (SetRetryPolicy c0 (- 1) 0) [answer 200 ''ok''] ''GET'' ''/x'' None True True =
     Some (Inl (Errorf ''request failed after 0 attempts: '' None), [])"
  using doRequest_negative_maxRetries [of "- 1" lib0 c0 0 "[answer 200 ''ok'']"
      "''GET''" "''/x''" None True True]
  by (simp add: Itoa_0)

lemma busyThenDeadline_retryable:
  assumes "baseURL c = ''https://ts:50050''" and "token c = ''tok''"
  shows "retryableFailure lib0 c ''GET'' ''/x'' None True True busyThenDeadline"
    and "sentBy lib0 c ''GET'' ''/x'' None True True busyThenDeadline = Some getX"
  using assms
  by (simp_all add: retryableFailure_def sentBy_def doRequestOnce_def prepareRequest_getX
        busyThenDeadline_def handleResponse_def)

subsection \<open>The state of the loop after a run of retryable failures\<close>

lemma doRequest_after_failures:
  assumes "\<forall>w \<in> set pre. retryableFailure lib c method path body result requireAuth w
                          \<and> noCancel w"
    and "int (length pre) \<le> sint (maxRetries c)"
    and "pre \<noteq> []"
  shows "doRequest lib c (pre @ ws) method path body result requireAuth =
           doRequest_loop lib c method path body result requireAuth ws (of_nat (length pre))
             (errorOf lib c method path body result requireAuth (last pre))
             (retryEvents (retryDelay c) True
                (map (sentBy lib c method path body result requireAuth) pre))"
    and "sint (of_nat (length pre) :: 64 word) = int (length pre)"
proof -
  have b: "sint (0 :: 64 word) + int (length pre) \<le> sint (maxRetries c) + 1"
    using assms(2) by simp
  show "doRequest lib c (pre @ ws) method path body result requireAuth =
           doRequest_loop lib c method path body result requireAuth ws (of_nat (length pre))
             (errorOf lib c method path body result requireAuth (last pre))
             (retryEvents (retryDelay c) True
                (map (sentBy lib c method path body result requireAuth) pre))"
    unfolding doRequest_def
    using doRequest_loop_prefix [OF assms(1) _ b assms(3), of ws None "[]"] by simp
  have "sint (0 + of_nat (length pre) :: 64 word) = sint (0 :: 64 word) + int (length pre)"
    by (rule sint_add_of_nat [of 0 "length pre" "maxRetries c"]) (use assms(2) in simp)
  then show "sint (of_nat (length pre) :: 64 word) = int (length pre)" by simp
qed

lemma doRequest_loop_wait_cancelled:
  assumes "sint attempt \<le> sint (maxRetries c)" and "sint attempt > 0"
    and "ctx_Done w = Some cerr"
  shows "doRequest_loop lib c method path body result requireAuth (w # ws) attempt lastErr tr =
           Some (Inl (CtxErr cerr), tr)"
  using assms by (simp add: doRequest_loop.simps)

lemma doRequest_loop_failure_cancelled:
  assumes "sint attempt \<le> sint (maxRetries c)"
    and "sint attempt > 0 \<longrightarrow> ctx_Done w = None"
    and "retryableFailure lib c method path body result requireAuth w"
    and "ctx_Err w = Some cerr"
  shows "doRequest_loop lib c method path body result requireAuth (w # ws) attempt lastErr tr =
           Some (Inl (CtxErr cerr),
                 tr @ (if sint attempt > 0 then [Delay (retryDelay c)] else [])
                    @ [Attempt (sentBy lib c method path body result requireAuth w)])"
proof -
  obtain r s where rs: "doRequestOnce lib c w method path body result requireAuth = (r, s)"
    by (cases "doRequestOnce lib c w method path body result requireAuth")
  from assms(3) rs obtain err where r: "r = Inl err" and nr: "\<not> isNonRetryableError err"
    by (auto simp: retryableFailure_def split: sum.splits)
  show ?thesis
    using assms(1,2,4) rs r nr by (simp add: doRequest_loop.simps sentBy_def)
qed

text \<open>
  C3, as amended. After any number of retryable failures without cancellation (at most
  \<^verbatim>\<open>maxRetries\<close> of them), in the next world \<open>w\<close>: if the \<^verbatim>\<open>select\<close> of the wait between
  attempts takes the \<^verbatim>\<open>ctx.Done()\<close> case, \<^verbatim>\<open>doRequest\<close> returns \<^verbatim>\<open>ctx.Err()\<close> with no further
  delay or attempt; and if the attempt is a retryable failure and \<^verbatim>\<open>ctx.Err()\<close> is not
  nil after it, \<^verbatim>\<open>doRequest\<close> returns \<^verbatim>\<open>ctx.Err()\<close> instead of the error of the attempt,
  with no further attempt. In both cases what the worlds after \<open>w\<close> hold is never used.
\<close>

theorem doRequest_cancellation:
  assumes "\<forall>w \<in> set pre. retryableFailure lib c method path body result requireAuth w
                          \<and> noCancel w"
    and "int (length pre) \<le> sint (maxRetries c)"
  shows "(pre \<noteq> [] \<and> ctx_Done w = Some cerr \<longrightarrow>
            doRequest lib c (pre @ w # rest) method path body result requireAuth =
              Some (Inl (CtxErr cerr),
                    retryEvents (retryDelay c) True
                      (map (sentBy lib c method path body result requireAuth) pre)))
       \<and> ((pre = [] \<or> ctx_Done w = None)
            \<and> retryableFailure lib c method path body result requireAuth w
            \<and> ctx_Err w = Some cerr \<longrightarrow>
            doRequest lib c (pre @ w # rest) method path body result requireAuth =
              Some (Inl (CtxErr cerr),
                    retryEvents (retryDelay c) True
                      (map (sentBy lib c method path body result requireAuth) (pre @ [w]))))"
proof (cases "pre = []")
  case True
  have le: "sint (0 :: 64 word) \<le> sint (maxRetries c)" using assms(2) by simp
  show ?thesis
    using True doRequest_loop_failure_cancelled [OF le, of w lib "method" "path" body result
        requireAuth cerr rest None "[]"]
    by (simp add: doRequest_def)
next
  case False
  note st = doRequest_after_failures [OF assms False]
  have pos: "sint (of_nat (length pre) :: 64 word) > 0"
    using st(2) False by (cases pre) simp_all
  have le: "sint (of_nat (length pre) :: 64 word) \<le> sint (maxRetries c)"
    using st(2) assms(2) by simp
  show ?thesis
    using False pos
      doRequest_loop_wait_cancelled [OF le pos, of w cerr lib "method" "path" body result
        requireAuth rest]
      doRequest_loop_failure_cancelled [OF le, of w lib "method" "path" body result
        requireAuth cerr rest]
    by (simp add: st(1) retryEvents_snoc)
qed

text \<open>
  The theorem after one answer 503: at a wait that is cancelled, and at a second answer
  503 after which the deadline of the context has passed.
\<close>

theorem doRequest_cancellation_witness:
  "doRequest lib0 c0 [answer 503 ''busy'', waitCancelled, answer 200 ''ok'']
     ''GET'' ''/x'' None True True =
     Some (Inl (CtxErr Canceled), [Attempt (Some getX)])
   \<and> doRequest lib0 c0 [answer 503 ''busy'', busyThenDeadline, answer 200 ''ok'']
     ''GET'' ''/x'' None True True =
     Some (Inl (CtxErr DeadlineExceeded),
           [Attempt (Some getX), Delay (2 * Second), Attempt (Some getX)])"
  using doRequest_cancellation [of "[answer 503 ''busy'']" lib0 c0 "''GET''" "''/x''" None
      True True waitCancelled Canceled "[answer 200 ''ok'']"]
    doRequest_cancellation [of "[answer 503 ''busy'']" lib0 c0 "''GET''" "''/x''" None
      True True busyThenDeadline DeadlineExceeded "[answer 200 ''ok'']"]
  by (simp add: busy_retryable noCancel_answer busyThenDeadline_retryable c0_def
        waitCancelled_def)
     (simp add: busyThenDeadline_def)

text \<open>
  C3 as stated fails after an attempt that returns a failure on which
  \<^verbatim>\<open>isNonRetryableError\<close> holds: the context is cancelled, and \<^verbatim>\<open>doRequest\<close> returns the
  error of the attempt, not \<^verbatim>\<open>context.Canceled\<close>.
\<close>

theorem doRequest_non_retryable_before_cancel_counterexample:
  "ctx_Err cancelled404 = Some Canceled
   \<and> doRequest lib0 c0 [cancelled404] ''GET'' ''/x'' None True True =
       Some (Inl (APIErr \<lparr> StatusCode = 404, Message = ''no such task'',
                            Retryable = False \<rparr>),
             [Attempt (Some getX)])"
  by (simp add: doRequest_def doRequest_loop.simps doRequestOnce_def prepareRequest_getX
        c0_def cancelled404_def handleResponse_def)

subsection \<open>The errors of an attempt and of the loop\<close>

lemma prepareRequest_APIErr:
  "prepareRequest lib c method path body requireAuth = Inl e \<Longrightarrow> \<exists>a. e = APIErr a"
  by (auto simp: prepareRequest_def Let_def split: option.splits sum.splits)

lemma handleResponse_APIErr:
  "handleResponse lib result resp = Inl e \<Longrightarrow> \<exists>a. e = APIErr a"
  by (auto simp: handleResponse_def Let_def split: sum.splits if_splits)

lemma doRequestOnce_APIErr:
  assumes "fst (doRequestOnce lib c w method path body result requireAuth) = Inl e"
  shows "\<exists>a. e = APIErr a"
proof (cases "prepareRequest lib c method path body requireAuth")
  case (Inl err)
  with assms have "e = err" by (simp add: doRequestOnce_def)
  with Inl show ?thesis by (auto dest: prepareRequest_APIErr)
next
  case (Inr req)
  show ?thesis
  proof (cases "http_Do w req")
    case (Inl err)
    with Inr assms show ?thesis by (auto simp: doRequestOnce_def)
  next
    case (Inr resp)
    with \<open>prepareRequest lib c method path body requireAuth = Inr req\<close> assms
    have "handleResponse lib result resp = Inl e" by (simp add: doRequestOnce_def)
    then show ?thesis by (rule handleResponse_APIErr)
  qed
qed

lemma doRequest_loop_errors:
  assumes "doRequest_loop lib c method path body result requireAuth ws attempt lastErr tr =
             Some (Inl e, tr')"
    and "\<forall>x. lastErr = Some x \<longrightarrow> (\<exists>a. x = APIErr a)"
  shows "(\<exists>a. e = APIErr a) \<or> (\<exists>cerr. e = CtxErr cerr)
         \<or> (\<exists>cause. e = exhausted c cause \<and> (\<forall>x. cause = Some x \<longrightarrow> (\<exists>a. x = APIErr a)))"
  using assms
proof (induction ws arbitrary: attempt lastErr tr)
  case Nil
  then show ?case by (auto simp: doRequest_loop.simps split: if_splits)
next
  case (Cons w ws)
  show ?case
  proof (cases "sint attempt \<le> sint (maxRetries c)")
    case False
    with Cons.prems show ?thesis by (auto simp: doRequest_loop_exit)
  next
    case True
    obtain r s where rs: "doRequestOnce lib c w method path body result requireAuth = (r, s)"
      by (cases "doRequestOnce lib c w method path body result requireAuth")
    show ?thesis
    proof (cases "sint attempt > 0 \<and> ctx_Done w \<noteq> None")
      case True
      with \<open>sint attempt \<le> sint (maxRetries c)\<close> Cons.prems(1) show ?thesis
        by (auto simp: doRequest_loop.simps)
    next
      case False
      then have nowait: "(if sint attempt > 0 then ctx_Done w else None) = None" by auto
      show ?thesis
      proof (cases r)
        case (Inr v)
        with True rs nowait Cons.prems(1) show ?thesis
          by (simp add: doRequest_loop.simps)
      next
        case (Inl err)
        with rs have "fst (doRequestOnce lib c w method path body result requireAuth) = Inl err"
          by simp
        then have api: "\<exists>a. err = APIErr a" by (rule doRequestOnce_APIErr)
        show ?thesis
        proof (cases "isNonRetryableError err")
          case True
          with \<open>sint attempt \<le> sint (maxRetries c)\<close> rs nowait Inl Cons.prems(1) have "e = err"
            by (simp add: doRequest_loop.simps)
          with api show ?thesis by simp
        next
          case nr: False
          show ?thesis
          proof (cases "ctx_Err w")
            case (Some cerr)
            with True rs nowait Inl nr Cons.prems(1) show ?thesis
              by (auto simp: doRequest_loop.simps)
          next
            case None
            with True rs nowait Inl nr Cons.prems(1)
            have "\<exists>tr2. doRequest_loop lib c method path body result requireAuth ws (attempt + 1)
                    (Some err) tr2 = Some (Inl e, tr')"
              by (auto simp: doRequest_loop.simps)
            then obtain tr2 where
              next_run: "doRequest_loop lib c method path body result requireAuth ws
                 (attempt + 1) (Some err) tr2 = Some (Inl e, tr')" ..
            have inv: "\<forall>x. Some err = Some x \<longrightarrow> (\<exists>a. x = APIErr a)"
              using api by simp
            show ?thesis by (rule Cons.IH [OF next_run inv])
          qed
        qed
      qed
    qed
  qed
qed

text \<open>
  C9. Every error that \<^verbatim>\<open>doRequestOnce\<close> returns is an \<^verbatim>\<open>APIError\<close> (status code, message and
  retryable flag). Every error that \<^verbatim>\<open>doRequest\<close> returns is such an \<^verbatim>\<open>APIError\<close>, or the
  error of the context, or the error \<^verbatim>\<open>request failed after ... attempts\<close>, whose wrapped
  error is nil or an \<^verbatim>\<open>APIError\<close>.
\<close>

theorem errors_classified:
  "(fst (doRequestOnce lib c w method path body result requireAuth) = Inl e
      \<longrightarrow> (\<exists>a. e = APIErr a))
   \<and> (doRequest lib c ws method path body result requireAuth = Some (Inl e', tr)
      \<longrightarrow> (\<exists>a. e' = APIErr a) \<or> (\<exists>cerr. e' = CtxErr cerr)
          \<or> (\<exists>cause. e' = exhausted c cause
                \<and> (\<forall>x. cause = Some x \<longrightarrow> (\<exists>a. x = APIErr a))))"
  using doRequestOnce_APIErr [of lib c w "method" "path" body result requireAuth e]
    doRequest_loop_errors [of lib c "method" "path" body result requireAuth ws 0 None "[]" e' tr]
  by (simp add: doRequest_def)

text \<open>The theorem at an answer 404, for the attempt and for the whole request.\<close>

theorem errors_classified_witness:
  "(\<exists>a. APIErr \<lparr> StatusCode = 404, Message = ''no such task'', Retryable = False \<rparr> = APIErr a)
   \<and> fst (doRequestOnce lib0 c0 (answer 404 ''no such task'') ''GET'' ''/x'' None True True) =
       Inl (APIErr \<lparr> StatusCode = 404, Message = ''no such task'', Retryable = False \<rparr>)
   \<and> doRequest lib0 c0 [answer 404 ''no such task''] ''GET'' ''/x'' None True True =
       Some (Inl (APIErr \<lparr> StatusCode = 404, Message = ''no such task'', Retryable = False \<rparr>),
             [Attempt (Some getX)])"
  using errors_classified [of lib0 c0 "answer 404 ''no such task''" "''GET''" "''/x''" None
      True True "APIErr \<lparr> StatusCode = 404, Message = ''no such task'', Retryable = False \<rparr>"
      "[answer 404 ''no such task'']"
      "APIErr \<lparr> StatusCode = 404, Message = ''no such task'', Retryable = False \<rparr>"
      "[Attempt (Some getX)]"]
  by (simp add: doRequestOnce_answer handleResponse_lib0_missing c0_def doRequest_def
        doRequest_loop.simps)

section \<open>The bearer credential\<close>

lemma prepareRequest_Authorization:
  assumes "prepareRequest lib c method path body requireAuth = Inr req"
  shows "req_header req ''Authorization'' =
           (if requireAuth \<and> token c \<noteq> '''' then Some (''Bearer '' @ token c) else None)"
  using assms
  by (auto simp: prepareRequest_def Let_def Header_Set_def split: option.splits sum.splits)

lemma doRequest_loop_requests:
  assumes "doRequest_loop lib c method path body result requireAuth ws attempt lastErr tr =
             Some (r, tr')"
    and "Attempt (Some req) \<in> set tr'"
  shows "Attempt (Some req) \<in> set tr
         \<or> prepareRequest lib c method path body requireAuth = Inr req"
  using assms
proof (induction ws arbitrary: attempt lastErr tr)
  case Nil
  then show ?case by (auto simp: doRequest_loop.simps split: if_splits)
next
  case (Cons w ws)
  obtain r1 s where rs: "doRequestOnce lib c w method path body result requireAuth = (r1, s)"
    by (cases "doRequestOnce lib c w method path body result requireAuth")
  then have sent: "s = Some req \<Longrightarrow> prepareRequest lib c method path body requireAuth = Inr req"
    using doRequestOnce_sent [of lib c w "method" "path" body result requireAuth req] by simp
  let ?tr2 = "(if sint attempt > 0 then tr @ [Delay (retryDelay c)] else tr) @ [Attempt s]"
  have tr2: "Attempt (Some req) \<in> set ?tr2 \<Longrightarrow>
               Attempt (Some req) \<in> set tr
               \<or> prepareRequest lib c method path body requireAuth = Inr req"
    using sent by (auto split: if_splits)
  show ?case
  proof (cases "sint attempt \<le> sint (maxRetries c)")
    case False
    with Cons.prems show ?thesis by (auto simp: doRequest_loop_exit)
  next
    case True
    show ?thesis
    proof (cases "sint attempt > 0 \<and> ctx_Done w \<noteq> None")
      case True
      with \<open>sint attempt \<le> sint (maxRetries c)\<close> Cons.prems show ?thesis
        by (auto simp: doRequest_loop.simps)
    next
      case False
      then have nowait: "(if sint attempt > 0 then ctx_Done w else None) = None" by auto
      from True rs nowait Cons.prems(1)
      have "(tr' = ?tr2)
            \<or> doRequest_loop lib c method path body result requireAuth ws (attempt + 1)
                 (case r1 of Inl err \<Rightarrow> Some err | Inr v \<Rightarrow> None) ?tr2 = Some (r, tr')"
        by (auto simp: doRequest_loop.simps Let_def split: sum.splits if_splits option.splits)
      then show ?thesis
      proof
        assume "tr' = ?tr2"
        with Cons.prems(2) tr2 show ?thesis by simp
      next
        assume "doRequest_loop lib c method path body result requireAuth ws (attempt + 1)
                 (case r1 of Inl err \<Rightarrow> Some err | Inr v \<Rightarrow> None) ?tr2 = Some (r, tr')"
        from Cons.IH [OF this Cons.prems(2)] tr2 show ?thesis by blast
      qed
    qed
  qed
qed

lemma Login_success:
  assumes "Login lib c ws username password durationMs = Some (Inr auth, c', tr)"
  shows "token c' = AccessToken auth"
    and "\<exists>v. doRequest lib c ws ''POST'' ''/api/auth/login''
                (Some \<lparr> Username = username, Password = password, DurationMs = durationMs \<rparr>)
                True False = Some (Inr v, tr)"
  using assms
  by (auto simp: Login_def Let_def split: option.splits sum.splits prod.splits)

lemma prepareRequest_sendable:
  assumes "body = None \<or> (\<exists>b d. body = Some b \<and> json_Marshal lib b = Inr d)"
    and "http_NewRequest lib method (baseURL c @ path) = None"
  shows "\<exists>req. prepareRequest lib c method path body requireAuth = Inr req"
  using assms by (auto simp: prepareRequest_def Let_def)

lemma doRequestOnce_success_sent:
  assumes "fst (doRequestOnce lib c w method path body result requireAuth) = Inr v"
  shows "\<exists>req. snd (doRequestOnce lib c w method path body result requireAuth) = Some req"
  using assms by (auto simp: doRequestOnce_def split: sum.splits)

lemma doRequest_loop_success_last:
  assumes "doRequest_loop lib c method path body result requireAuth ws attempt lastErr tr =
             Some (Inr v, tr')"
  shows "tr' \<noteq> [] \<and> (\<exists>req. last tr' = Attempt (Some req))"
  using assms
proof (induction ws arbitrary: attempt lastErr tr)
  case Nil
  then show ?case by (auto simp: doRequest_loop.simps split: if_splits)
next
  case (Cons w ws)
  obtain r1 s where rs: "doRequestOnce lib c w method path body result requireAuth = (r1, s)"
    by (cases "doRequestOnce lib c w method path body result requireAuth")
  let ?tr2 = "(if sint attempt > 0 then tr @ [Delay (retryDelay c)] else tr) @ [Attempt s]"
  show ?case
  proof (cases "sint attempt \<le> sint (maxRetries c)")
    case False
    with Cons.prems show ?thesis by (auto simp: doRequest_loop_exit)
  next
    case True
    show ?thesis
    proof (cases "sint attempt > 0 \<and> ctx_Done w \<noteq> None")
      case True
      with \<open>sint attempt \<le> sint (maxRetries c)\<close> Cons.prems show ?thesis
        by (auto simp: doRequest_loop.simps)
    next
      case False
      then have nowait: "(if sint attempt > 0 then ctx_Done w else None) = None" by auto
      from True rs nowait Cons.prems
      have "(r1 = Inr v \<and> tr' = ?tr2)
            \<or> (\<exists>err. doRequest_loop lib c method path body result requireAuth ws (attempt + 1)
                 (Some err) ?tr2 = Some (Inr v, tr'))"
        by (auto simp: doRequest_loop.simps Let_def split: sum.splits if_splits option.splits)
      then show ?thesis
      proof
        assume a: "r1 = Inr v \<and> tr' = ?tr2"
        with rs have "fst (doRequestOnce lib c w method path body result requireAuth) = Inr v"
          by simp
        from doRequestOnce_success_sent [OF this] rs obtain req where "s = Some req" by auto
        with a show ?thesis by simp
      next
        assume "\<exists>err. doRequest_loop lib c method path body result requireAuth ws (attempt + 1)
                 (Some err) ?tr2 = Some (Inr v, tr')"
        then obtain err where
          "doRequest_loop lib c method path body result requireAuth ws (attempt + 1)
                 (Some err) ?tr2 = Some (Inr v, tr')" ..
        then show ?thesis by (rule Cons.IH)
      qed
    qed
  qed
qed

text \<open>
  C8. Whenever the body can be serialised (or there is none) and the request can be
  built, \<^verbatim>\<open>doRequestOnce\<close> sends a request, the answer of \<^verbatim>\<open>httpClient.Do\<close> to that very
  request decides its result, and the request carries the header field
  \<^verbatim>\<open>Authorization\<close> with \<^verbatim>\<open>Bearer\<close> and the token exactly when \<^verbatim>\<open>requireAuth\<close> is set and
  the client holds a token (a token is held when it is not the empty string); with
  \<^verbatim>\<open>requireAuth\<close> false the field is absent. \<^verbatim>\<open>Login\<close> is the call that passes false: when
  it succeeds it has sent a request, none of the requests it has sent carries the
  field, whatever token the client held, and the client's token is now the
  \<^verbatim>\<open>AccessToken\<close> of the answer.
\<close>

theorem bearer_credential:
  assumes "body = None \<or> (\<exists>b d. body = Some b \<and> json_Marshal lib b = Inr d)"
    and "http_NewRequest lib method (baseURL c @ path) = None"
  shows "(\<exists>req. snd (doRequestOnce lib c w method path body result requireAuth) = Some req
            \<and> req_header req ''Authorization'' =
                (if requireAuth \<and> token c \<noteq> '''' then Some (''Bearer '' @ token c)
                 else None)
            \<and> (\<forall>err. http_Do w req = Inl err \<longrightarrow>
                  fst (doRequestOnce lib c w method path body result requireAuth) =
                    Inl (APIErr \<lparr> StatusCode = 0, Message = ''request failed: '' @ err,
                                   Retryable = True \<rparr>))
            \<and> (\<forall>resp. http_Do w req = Inr resp \<longrightarrow>
                  fst (doRequestOnce lib c w method path body result requireAuth) =
                    handleResponse lib result resp))
         \<and> (Login lib' cl ws username password durationMs = Some (Inr auth, cl', tr) \<longrightarrow>
              token cl' = AccessToken auth
              \<and> tr \<noteq> [] \<and> (\<exists>req'. last tr = Attempt (Some req'))
              \<and> (\<forall>req'. Attempt (Some req') \<in> set tr \<longrightarrow>
                    req_header req' ''Authorization'' = None))"
proof (rule conjI)
  from prepareRequest_sendable [OF assms] obtain req where
    p: "prepareRequest lib c method path body requireAuth = Inr req" ..
  have "snd (doRequestOnce lib c w method path body result requireAuth) = Some req"
    using p by (simp add: doRequestOnce_sent)
  moreover have "req_header req ''Authorization'' =
                (if requireAuth \<and> token c \<noteq> '''' then Some (''Bearer '' @ token c)
                 else None)"
    by (rule prepareRequest_Authorization [OF p])
  moreover have "\<forall>err. http_Do w req = Inl err \<longrightarrow>
                  fst (doRequestOnce lib c w method path body result requireAuth) =
                    Inl (APIErr \<lparr> StatusCode = 0, Message = ''request failed: '' @ err,
                                   Retryable = True \<rparr>)"
    using p by (simp add: doRequestOnce_def)
  moreover have "\<forall>resp. http_Do w req = Inr resp \<longrightarrow>
                  fst (doRequestOnce lib c w method path body result requireAuth) =
                    handleResponse lib result resp"
    using p by (simp add: doRequestOnce_def)
  ultimately show "\<exists>req. snd (doRequestOnce lib c w method path body result requireAuth) = Some req
            \<and> req_header req ''Authorization'' =
                (if requireAuth \<and> token c \<noteq> '''' then Some (''Bearer '' @ token c)
                 else None)
            \<and> (\<forall>err. http_Do w req = Inl err \<longrightarrow>
                  fst (doRequestOnce lib c w method path body result requireAuth) =
                    Inl (APIErr \<lparr> StatusCode = 0, Message = ''request failed: '' @ err,
                                   Retryable = True \<rparr>))
            \<and> (\<forall>resp. http_Do w req = Inr resp \<longrightarrow>
                  fst (doRequestOnce lib c w method path body result requireAuth) =
                    handleResponse lib result resp)"
    by blast
next
  show "Login lib' cl ws username password durationMs = Some (Inr auth, cl', tr) \<longrightarrow>
              token cl' = AccessToken auth
              \<and> tr \<noteq> [] \<and> (\<exists>req'. last tr = Attempt (Some req'))
              \<and> (\<forall>req'. Attempt (Some req') \<in> set tr \<longrightarrow>
                    req_header req' ''Authorization'' = None)"
  proof (intro impI conjI allI)
    assume l: "Login lib' cl ws username password durationMs = Some (Inr auth, cl', tr)"
    show "token cl' = AccessToken auth" by (rule Login_success(1) [OF l])
    from Login_success(2) [OF l] obtain v where
      run: "doRequest lib' cl ws ''POST'' ''/api/auth/login''
         (Some \<lparr> Username = username, Password = password, DurationMs = durationMs \<rparr>)
         True False = Some (Inr v, tr)" ..
    then have last: "tr \<noteq> [] \<and> (\<exists>req'. last tr = Attempt (Some req'))"
      unfolding doRequest_def by (rule doRequest_loop_success_last)
    from last show "tr \<noteq> []" ..
    from last show "\<exists>req'. last tr = Attempt (Some req')" ..
    fix req'
    assume a: "Attempt (Some req') \<in> set tr"
    have "prepareRequest lib' cl ''POST'' ''/api/auth/login''
         (Some \<lparr> Username = username, Password = password, DurationMs = durationMs \<rparr>) False
         = Inr req'"
      using doRequest_loop_requests [OF _ a] run by (fastforce simp: doRequest_def)
    then show "req_header req' ''Authorization'' = None"
      using prepareRequest_Authorization by fastforce
  qed
qed

lemma prepareRequest_getX_noauth:
  assumes "baseURL c = ''https://ts:50050''"
  shows "prepareRequest lib0 c ''GET'' ''/x'' None False =
           Inr (getX\<lparr> req_header := Map.empty \<rparr>)"
  using assms by (simp add: prepareRequest_def lib0_def getX_def)

lemma handleResponse_lib0_unauthorized:
  "handleResponse lib0 True \<lparr> resp_StatusCode = 401, resp_Body = Inr ''unauthorized'' \<rparr> =
     Inl (APIErr \<lparr> StatusCode = 401, Message = ''unauthorized'', Retryable = False \<rparr>)"
  by (simp add: handleResponse_def)

lemma doRequestOnce_bearerOnly:
  "doRequestOnce lib0 c0 bearerOnly ''GET'' ''/x'' None True True =
     (Inr (Some ''ok''), Some getX)"
  "doRequestOnce lib0 c0 bearerOnly ''GET'' ''/x'' None True False =
     (Inl (APIErr \<lparr> StatusCode = 401, Message = ''unauthorized'', Retryable = False \<rparr>),
      Some (getX\<lparr> req_header := Map.empty \<rparr>))"
  "doRequestOnce lib0 (c0\<lparr> token := '''' \<rparr>) bearerOnly ''GET'' ''/x'' None True True =
     (Inl (APIErr \<lparr> StatusCode = 401, Message = ''unauthorized'', Retryable = False \<rparr>),
      Some (getX\<lparr> req_header := Map.empty \<rparr>))"
  by (simp_all add: doRequestOnce_def prepareRequest_def lib0_def c0_def getX_def
        Header_Set_def bearerOnly_def handleResponse_def)

lemma Login_c0:
  "Login libLogin c0 [answer 200 ''abc''] ''operator'' ''secret'' 0 =
     Some (Inr \<lparr> AccessToken = ''abc'', TokenType = ''bearer'', ExpiresIn = 3600 \<rparr>,
           c0\<lparr> token := ''abc'' \<rparr>, [Attempt (Some loginReq)])"
  by (simp add: Login_def doRequest_def doRequest_loop.simps doRequestOnce_def
        prepareRequest_def handleResponse_def libLogin_def c0_def answer_def Header_Set_def
        loginReq_def)

lemma loginReq_Authorization: "req_header loginReq ''Authorization'' = None"
  by (simp add: loginReq_def)

text \<open>
  The theorem at a client that holds the token \<^verbatim>\<open>tok\<close> and a server that answers 200
  only to the bearer token \<^verbatim>\<open>tok\<close>: the request with \<^verbatim>\<open>requireAuth\<close> succeeds, the same
  request without it is answered 401; and at a \<^verbatim>\<open>Login\<close> of that client that is
  answered with the token \<^verbatim>\<open>abc\<close>.
\<close>

theorem bearer_credential_witness:
  "doRequestOnce lib0 c0 bearerOnly ''GET'' ''/x'' None True True =
     (Inr (Some ''ok''), Some getX)
   \<and> map_option (\<lambda>req. req_header req ''Authorization'')
       (snd (doRequestOnce lib0 c0 bearerOnly ''GET'' ''/x'' None True True)) =
       Some (Some ''Bearer tok'')
   \<and> doRequestOnce lib0 c0 bearerOnly ''GET'' ''/x'' None True False =
     (Inl (APIErr \<lparr> StatusCode = 401, Message = ''unauthorized'', Retryable = False \<rparr>),
      Some (getX\<lparr> req_header := Map.empty \<rparr>))
   \<and> map_option (\<lambda>req. req_header req ''Authorization'')
       (snd (doRequestOnce lib0 c0 bearerOnly ''GET'' ''/x'' None True False)) = Some None
   \<and> Login libLogin c0 [answer 200 ''abc''] ''operator'' ''secret'' 0 =
       Some (Inr \<lparr> AccessToken = ''abc'', TokenType = ''bearer'', ExpiresIn = 3600 \<rparr>,
             c0\<lparr> token := ''abc'' \<rparr>, [Attempt (Some loginReq)])
   \<and> req_header loginReq ''Authorization'' = None"
  using bearer_credential [of None lib0 "''GET''" c0 "''/x''" bearerOnly True True
      libLogin c0 "[answer 200 ''abc'']" "''operator''" "''secret''" 0
      "\<lparr> AccessToken = ''abc'', TokenType = ''bearer'', ExpiresIn = 3600 \<rparr>"
      "c0\<lparr> token := ''abc'' \<rparr>" "[Attempt (Some loginReq)]"]
    bearer_credential [of None lib0 "''GET''" c0 "''/x''" bearerOnly True False
      libLogin c0 "[answer 200 ''abc'']" "''operator''" "''secret''" 0
      "\<lparr> AccessToken = ''abc'', TokenType = ''bearer'', ExpiresIn = 3600 \<rparr>"
      "c0\<lparr> token := ''abc'' \<rparr>" "[Attempt (Some loginReq)]"]
  by (simp add: doRequestOnce_bearerOnly Login_c0 loginReq_Authorization)
     (simp add: getX_def)

section \<open>Completion Poller\<close>

lemma GetTask_answer:
  assumes "status \<noteq> []"
  shows "GetTask libTask c0 [answer 200 status] ''t1'' =
           Some (Inr (zero_TaskDetailDto\<lparr> TaskID := ''t1'', TaskStatus := status \<rparr>))"
  using assms
  by (simp add: GetTask_def doRequest_def doRequest_loop.simps doRequestOnce_def
        prepareRequest_def handleResponse_def libTask_def c0_def answer_def)

lemma fetches_tickAt:
  assumes "status \<noteq> []"
  shows "fetches libTask c0 ''t1'' (tickAt now status)
           (zero_TaskDetailDto\<lparr> TaskID := ''t1'', TaskStatus := status \<rparr>)"
  using assms by (simp add: fetches_def tickAt_def GetTask_answer)

lemma tickAt_simps:
  "tick_Now (tickAt now status) = now" "tick_Done (tickAt now status) = None"
  by (simp_all add: tickAt_def)

lemma WaitForTaskCompletion_loop_polling:
  assumes "fetches lib c taskID t snap" and "\<not> terminalStatus (TaskStatus snap)"
    and "tick_Now t \<le> deadline"
  shows "WaitForTaskCompletion_loop lib c taskID deadline (t # ts) seen =
           WaitForTaskCompletion_loop lib c taskID deadline ts (seen @ [tick_Now t])"
  using assms
  by (simp add: WaitForTaskCompletion_loop.simps fetches_def terminalStatus_def)

lemma WaitForTaskCompletion_loop_terminal:
  assumes "fetches lib c taskID t snap" and "terminalStatus (TaskStatus snap)"
    and "tick_Now t \<le> deadline"
  shows "WaitForTaskCompletion_loop lib c taskID deadline (t # ts) seen =
           Some (Inr snap, seen @ [tick_Now t])"
  using assms
  by (simp add: WaitForTaskCompletion_loop.simps fetches_def terminalStatus_def)

lemma WaitForTaskCompletion_loop_timeout:
  assumes "tick_Done t = None" and "tick_Now t > deadline"
  shows "WaitForTaskCompletion_loop lib c taskID deadline (t # ts) seen =
           Some (Inl timeoutError, seen @ [tick_Now t])"
  using assms by (simp add: WaitForTaskCompletion_loop.simps)

lemma WaitForTaskCompletion_loop_prefix:
  assumes "\<forall>t \<in> set pre. tick_Now t \<le> deadline
             \<and> (\<exists>snap. fetches lib c taskID t snap \<and> \<not> terminalStatus (TaskStatus snap))"
  shows "WaitForTaskCompletion_loop lib c taskID deadline (pre @ ts) seen =
           WaitForTaskCompletion_loop lib c taskID deadline ts (seen @ map tick_Now pre)"
  using assms
proof (induction pre arbitrary: seen)
  case Nil
  then show ?case by simp
next
  case (Cons t pre)
  from Cons.prems obtain snap where
    "fetches lib c taskID t snap" "\<not> terminalStatus (TaskStatus snap)" "tick_Now t \<le> deadline"
    by auto
  then have "WaitForTaskCompletion_loop lib c taskID deadline ((t # pre) @ ts) seen =
             WaitForTaskCompletion_loop lib c taskID deadline (pre @ ts) (seen @ [tick_Now t])"
    by (simp add: WaitForTaskCompletion_loop_polling)
  also have "\<dots> = WaitForTaskCompletion_loop lib c taskID deadline ts
                      ((seen @ [tick_Now t]) @ map tick_Now pre)"
    by (rule Cons.IH) (use Cons.prems in simp)
  finally show ?case by simp
qed

lemma not_terminal:
  "s \<in> {TaskStatusNotFound, TaskStatusInProgress} \<Longrightarrow> \<not> terminalStatus s"
  by (auto simp: terminalStatus_def TaskStatusNotFound_def TaskStatusInProgress_def
        TaskStatusCompleted_def TaskStatusOutputReceived_def TaskStatusFailed_def)

text \<open>
  C4. While each tick is received before the deadline has passed and its fetch returns a
  snapshot whose status is \<^verbatim>\<open>NOT_FOUND\<close> or \<^verbatim>\<open>IN_PROGRESS\<close>, the poller goes on to the
  next tick; at the first tick whose fetch returns a snapshot with status \<^verbatim>\<open>COMPLETED\<close>,
  \<^verbatim>\<open>FAILED\<close> or \<^verbatim>\<open>OUTPUT_RECEIVED\<close> it returns that snapshot, and no later tick is used.
  The witness is the run of the claim: fetches \<^verbatim>\<open>IN_PROGRESS\<close>, \<^verbatim>\<open>IN_PROGRESS\<close>,
  \<^verbatim>\<open>COMPLETED\<close> at clock readings 2, 4 and 6 seconds with a timeout of 10 seconds.
\<close>

theorem WaitForTaskCompletion_terminal:
  assumes "\<forall>t \<in> set pre. tick_Now t \<le> start + timeout
             \<and> (\<exists>snap. fetches lib c taskID t snap
                    \<and> TaskStatus snap \<in> {TaskStatusNotFound, TaskStatusInProgress})"
    and "tick_Now t \<le> start + timeout"
    and "fetches lib c taskID t task"
    and "TaskStatus task \<in> {TaskStatusCompleted, TaskStatusFailed, TaskStatusOutputReceived}"
  shows "WaitForTaskCompletion lib c start (pre @ t # rest) taskID timeout =
           Some (Inr task, map tick_Now (pre @ [t]))"
proof -
  have "\<forall>t \<in> set pre. tick_Now t \<le> start + timeout
          \<and> (\<exists>snap. fetches lib c taskID t snap \<and> \<not> terminalStatus (TaskStatus snap))"
    using assms(1) not_terminal by blast
  then have "WaitForTaskCompletion lib c start (pre @ t # rest) taskID timeout =
        WaitForTaskCompletion_loop lib c taskID (start + timeout) (t # rest) (map tick_Now pre)"
    unfolding WaitForTaskCompletion_def
    using WaitForTaskCompletion_loop_prefix [of pre "start + timeout" lib c taskID "t # rest" "[]"]
    by simp
  also have "\<dots> = Some (Inr task, map tick_Now pre @ [tick_Now t])"
    using assms(4)
    by (intro WaitForTaskCompletion_loop_terminal assms(2,3)) (auto simp: terminalStatus_def)
  finally show ?thesis by simp
qed

theorem WaitForTaskCompletion_terminal_witness:
  "WaitForTaskCompletion libTask c0 0
     [tickAt (2 * Second) ''IN_PROGRESS'', tickAt (4 * Second) ''IN_PROGRESS'',
      tickAt (6 * Second) ''COMPLETED'', tickAt (8 * Second) ''COMPLETED'']
     ''t1'' (10 * Second) =
     Some (Inr (zero_TaskDetailDto\<lparr> TaskID := ''t1'', TaskStatus := ''COMPLETED'' \<rparr>),
           [2 * Second, 4 * Second, 6 * Second])"
  using WaitForTaskCompletion_terminal [of
      "[tickAt (2 * Second) ''IN_PROGRESS'', tickAt (4 * Second) ''IN_PROGRESS'']"
      0 "10 * Second" libTask c0 "''t1''" "tickAt (6 * Second) ''COMPLETED''"
      "zero_TaskDetailDto\<lparr> TaskID := ''t1'', TaskStatus := ''COMPLETED'' \<rparr>"
      "[tickAt (8 * Second) ''COMPLETED'']"]
    fetches_tickAt [of "''IN_PROGRESS''"]
  by (simp add: fetches_tickAt tickAt_simps Second_def TaskStatusCompleted_def
        TaskStatusInProgress_def exI [of _ "zero_TaskDetailDto\<lparr> TaskID := ''t1'', TaskStatus := ''IN_PROGRESS'' \<rparr>"])

lemma onTime_last:
  assumes "onTime start late k (xs @ [t])"
  shows "tick_Now t \<le> start + (int k + int (length xs)) * tickInterval + late"
    and "xs \<noteq> [] \<Longrightarrow>
           start + (int k + int (length xs) - 1) * tickInterval \<le> tick_Now (last xs)"
  using assms
proof (induction xs arbitrary: k)
  case Nil
  {
    case 1
    then show ?case by simp
  next
    case 2
    then show ?case by simp
  }
next
  case (Cons x xs)
  {
    case 1
    then have "onTime start late (Suc k) (xs @ [t])" by simp
    from Cons.IH(1) [OF this] show ?case by (simp add: ring_distribs)
  next
    case 2
    then have rest: "onTime start late (Suc k) (xs @ [t])"
      and x: "start + int k * tickInterval \<le> tick_Now x" by simp_all
    show ?case
    proof (cases "xs = []")
      case True
      with x show ?thesis by simp
    next
      case False
      from Cons.IH(2) [OF False rest] False show ?thesis by (simp add: ring_distribs)
    qed
  }
qed

text \<open>
  C5, as amended. Let the timeout be at least 0, and let the ticks be received on time up
  to \<open>late\<close>, the \<open>k\<close>-th between \<open>start + k * tickInterval\<close> and \<open>late\<close> after it. If
  every fetch at a tick received up to the deadline \<open>start + timeout\<close> returns a snapshot
  whose status is not terminal, and cancellation does not fire, then the poller returns
  the timeout error at the first tick that is received after the deadline; the time
  elapsed at that tick is more than the timeout, and exceeds it by at most one
  \<open>tickInterval\<close> plus \<open>late\<close>.
\<close>

theorem WaitForTaskCompletion_timeout:
  assumes "0 \<le> timeout"
    and "onTime start late 1 (pre @ [t])"
    and "\<forall>u \<in> set pre. tick_Now u \<le> start + timeout
           \<and> (\<exists>snap. fetches lib c taskID u snap \<and> \<not> terminalStatus (TaskStatus snap))"
    and "tick_Done t = None"
    and "start + timeout < tick_Now t"
  shows "WaitForTaskCompletion lib c start (pre @ t # rest) taskID timeout =
           Some (Inl timeoutError, map tick_Now (pre @ [t]))
         \<and> timeout < tick_Now t - start
         \<and> tick_Now t - start \<le> timeout + tickInterval + late"
proof -
  have "WaitForTaskCompletion lib c start (pre @ t # rest) taskID timeout =
        WaitForTaskCompletion_loop lib c taskID (start + timeout) (t # rest) (map tick_Now pre)"
    unfolding WaitForTaskCompletion_def
    using WaitForTaskCompletion_loop_prefix [OF assms(3), of "t # rest" "[]"]
    by simp
  also have "\<dots> = Some (Inl timeoutError, map tick_Now pre @ [tick_Now t])"
    by (rule WaitForTaskCompletion_loop_timeout [OF assms(4,5)])
  finally have run: "WaitForTaskCompletion lib c start (pre @ t # rest) taskID timeout =
           Some (Inl timeoutError, map tick_Now (pre @ [t]))" by simp
  have upper: "tick_Now t \<le> start + (1 + int (length pre)) * tickInterval + late"
    using onTime_last(1) [OF assms(2)] by simp
  have "int (length pre) * tickInterval \<le> timeout"
  proof (cases "pre = []")
    case True
    with assms(1) show ?thesis by simp
  next
    case False
    then have "last pre \<in> set pre" by simp
    with assms(3) have "tick_Now (last pre) \<le> start + timeout" by blast
    moreover have "start + int (length pre) * tickInterval \<le> tick_Now (last pre)"
      using onTime_last(2) [OF assms(2) False] by simp
    ultimately show ?thesis by linarith
  qed
  with upper have "tick_Now t - start \<le> timeout + tickInterval + late"
    by (simp add: ring_distribs)
  with run assms(5) show ?thesis by simp
qed

text \<open>
  The theorem at a timeout of 5 seconds, with every tick received one nanosecond after it
  is due: the timeout error comes at the third tick, one nanosecond after 6 seconds.
\<close>

theorem WaitForTaskCompletion_timeout_witness:
  "WaitForTaskCompletion libTask c0 0
     [tickAt (2 * Second + 1) ''IN_PROGRESS'', tickAt (4 * Second + 1) ''IN_PROGRESS'',
      tickAt (6 * Second + 1) ''IN_PROGRESS'', tickAt (8 * Second + 1) ''IN_PROGRESS'']
     ''t1'' (5 * Second) =
     Some (Inl timeoutError, [2 * Second + 1, 4 * Second + 1, 6 * Second + 1])
   \<and> 5 * Second < 6 * Second + 1 - 0
   \<and> 6 * Second + 1 - 0 \<le> 5 * Second + tickInterval + 1"
  using WaitForTaskCompletion_timeout [of "5 * Second" 0 1
      "[tickAt (2 * Second + 1) ''IN_PROGRESS'', tickAt (4 * Second + 1) ''IN_PROGRESS'']"
      "tickAt (6 * Second + 1) ''IN_PROGRESS''" libTask c0 "''t1''"
      "[tickAt (8 * Second + 1) ''IN_PROGRESS'']"]
    fetches_tickAt [of "''IN_PROGRESS''"]
  by (simp add: tickAt_simps Second_def tickInterval_def terminalStatus_def
        TaskStatusCompleted_def TaskStatusOutputReceived_def TaskStatusFailed_def
        exI [of _ "zero_TaskDetailDto\<lparr> TaskID := ''t1'', TaskStatus := ''IN_PROGRESS'' \<rparr>"])

text \<open>
  C5 as stated fails in two runs whose ticks before the last are received one nanosecond
  after they are due. In the first the timeout is 5 seconds and the third tick, due at 6
  seconds, is received at 8 seconds, after a fetch that took 4 seconds: the timeout
  error comes more than 3 seconds after the deadline. In the second the timeout is
  negative, minus 1 second: the timeout error comes at the first tick, more than 3
  seconds after the deadline. Both are more than one \<open>tickInterval\<close>.
\<close>

theorem WaitForTaskCompletion_late_tick_counterexample:
  "WaitForTaskCompletion libTask c0 0
     [tickAt (2 * Second + 1) ''IN_PROGRESS'', tickAt (4 * Second + 1) ''IN_PROGRESS'',
      tickAt (8 * Second + 1) ''IN_PROGRESS'']
     ''t1'' (5 * Second) =
     Some (Inl timeoutError, [2 * Second + 1, 4 * Second + 1, 8 * Second + 1])
   \<and> 8 * Second + 1 - 0 > 5 * Second + tickInterval
   \<and> WaitForTaskCompletion libTask c0 0 [tickAt (2 * Second + 1) ''IN_PROGRESS'']
       ''t1'' (- Second) =
     Some (Inl timeoutError, [2 * Second + 1])
   \<and> 2 * Second + 1 - 0 > - Second + tickInterval"
  by (simp add: WaitForTaskCompletion_def WaitForTaskCompletion_loop.simps tickAt_def
        GetTask_answer Second_def tickInterval_def TaskStatusCompleted_def
        TaskStatusOutputReceived_def TaskStatusFailed_def)

end
